theory Spec2Isabelle
  imports Complex_Main "HOL-Library.Word"
begin

unbundle bit_operations_syntax

section \<open>The TLA202x driver: data model\<close>

text \<open>
  The driver is the Python module \<^verbatim>\<open>adafruit_tla202x/__init__.py\<close>. Python integers are
  unbounded and their bit operations work on the infinite two's-complement representation,
  which is what \<^typ>\<open>int\<close> with \<open>AND\<close>, \<open>OR\<close>, \<open>NOT\<close>, \<^const>\<open>push_bit\<close> and
  \<^const>\<open>drop_bit\<close> provides. The contents of a device register are 16 bits wide and are
  modelled as \<^typ>\<open>16 word\<close>.
\<close>

subsection \<open>Register addresses\<close>

datatype reg = DATA_REG | CONFIG_REG

fun reg_address :: "reg \<Rightarrow> int" where
  "reg_address DATA_REG = 0x00"
| "reg_address CONFIG_REG = 0x01"

subsection \<open>The CV enumerations\<close>

text \<open>
  \<^verbatim>\<open>CV.add_values\<close> takes tuples \<^verbatim>\<open>(name, value, string, lsb)\<close>; it binds the name to
  the value and fills the two dictionaries \<^verbatim>\<open>cls.string\<close> and \<^verbatim>\<open>cls.lsb\<close>, both keyed
  by the value. The display string plays no part in the driver's logic apart from its key,
  so a table row keeps the name, the value and the \<^verbatim>\<open>lsb\<close> entry (\<open>None\<close> for Python's
  \<^verbatim>\<open>None\<close>).
\<close>

type_synonym cv_table = "(string \<times> int \<times> rat option) list"

definition cv_string_keys :: "cv_table \<Rightarrow> int list" where
  "cv_string_keys tbl = map (\<lambda>(name, v, l). v) tbl"

definition cv_lsb :: "cv_table \<Rightarrow> int \<Rightarrow> rat option" where
  "cv_lsb tbl v = (case map_of (map (\<lambda>(name, v, l). (v, l)) tbl) v of
                     None \<Rightarrow> None | Some l \<Rightarrow> l)"

definition is_valid :: "cv_table \<Rightarrow> int \<Rightarrow> bool" where
  "is_valid tbl v = (v \<in> set (cv_string_keys tbl))"

definition Mode_values :: cv_table where
  "Mode_values = [(''CONTINUOUS'', 0, None), (''ONE_SHOT'', 1, None)]"

definition Range_values :: cv_table where
  "Range_values =
     [(''RANGE_6_144V'', 0x0, Some 3),
      (''RANGE_4_096V'', 0x1, Some 2),
      (''RANGE_2_048V'', 0x2, Some 1),
      (''RANGE_1_024V'', 0x3, Some (1/2)),
      (''RANGE_0_512V'', 0x4, Some (1/4)),
      (''RANGE_0_256V'', 0x5, Some (1/8))]"

definition DataRate_values :: cv_table where
  "DataRate_values =
     [(''RATE_128SPS'', 0x0, None),
      (''RATE_250SPS'', 0x1, None),
      (''RATE_490SPS'', 0x2, None),
      (''RATE_920SPS'', 0x3, None),
      (''RATE_1600SPS'', 0x4, None),
      (''RATE_2400SPS'', 0x5, None),
      (''RATE_3300SPS'', 0x6, None)]"

definition Mux_values :: cv_table where
  "Mux_values =
     [(''MUX_AIN0_AIN1'', 0x0, None),
      (''MUX_AIN0_AIN3'', 0x1, None),
      (''MUX_AIN1_AIN3'', 0x2, None),
      (''MUX_AIN2_AIN3'', 0x3, None),
      (''MUX_AIN0_GND'', 0x4, None),
      (''MUX_AIN1_GND'', 0x5, None),
      (''MUX_AIN2_GND'', 0x6, None),
      (''MUX_AIN3_GND'', 0x7, None)]"

definition CONTINUOUS :: int where "CONTINUOUS = 0"
definition ONE_SHOT :: int where "ONE_SHOT = 1"
definition MUX_AIN0_GND :: int where "MUX_AIN0_GND = 0x4"
definition RATE_3300SPS :: int where "RATE_3300SPS = 0x6"
definition RANGE_6_144V :: int where "RANGE_6_144V = 0x0"
definition RANGE_2_048V :: int where "RANGE_2_048V = 0x2"

subsection \<open>Decoding the raw sample\<close>

text \<open>
  \<^verbatim>\<open>_raw_adc_read = ROUnaryStruct(_DATA_REG, ">h")\<close> reads the two bytes of the DATA register
  and unpacks them as a big-endian signed 16-bit integer: the signed reading \<^const>\<open>sint\<close> of
  the register word.
\<close>

definition unpack_h :: "16 word \<Rightarrow> int" where
  "unpack_h w = sint w"

text \<open>
  The arithmetic of \<^verbatim>\<open>_read_lsb\<close> on the value read:
  \<^verbatim>\<open>
    value_lsb >>= 4
    if value_lsb & (1 << 11):
        value_lsb |= 0xF000
    else:
        value_lsb &= ~0xF000
    return value_lsb
  \<close>
\<close>

definition lsb_of_raw :: "int \<Rightarrow> int" where
  "lsb_of_raw raw =
     (let value_lsb = drop_bit 4 raw in
      if value_lsb AND push_bit 11 1 \<noteq> 0
      then value_lsb OR 0xF000
      else value_lsb AND NOT 0xF000)"

subsection \<open>Python floats\<close>

text \<open>
  A finite Python float is a rational number. The format of a float depends on the platform
  (binary64 in CPython, shorter formats on CircuitPython boards), so the model is
  parametrised by the format's rounding function \<open>rnd\<close>, which maps the exact result of an
  arithmetic operation to the float that the operation returns. The integers converted to
  float by the driver (a 12-bit sample, a full-scale value of at most 8192) and the literals
  \<^verbatim>\<open>2047.0\<close> and \<^verbatim>\<open>1000.0\<close> are exactly representable in each of these formats, so the
  conversions are exact, and the divisors are never zero.
\<close>

type_synonym pyfloat = rat

type_synonym rounding = "rat \<Rightarrow> rat"

definition float_of_int :: "int \<Rightarrow> pyfloat" where
  "float_of_int n = of_int n"

definition fdiv :: "rounding \<Rightarrow> pyfloat \<Rightarrow> pyfloat \<Rightarrow> pyfloat" where
  "fdiv rnd a b = rnd (a / b)"

definition fmul :: "rounding \<Rightarrow> pyfloat \<Rightarrow> pyfloat \<Rightarrow> pyfloat" where
  "fmul rnd a b = rnd (a * b)"

subsection \<open>The bus and the handle\<close>

text \<open>
  The device is an external collaborator. Every register transaction of the driver is
  recorded, and the device answers a read as a function of the transactions so far: this
  covers a device that stores what is written, one that clears its status bit after some
  polls, and one whose samples change from read to read. Bus failures are not modelled.
\<close>

datatype bus_op = Rd reg "16 word" | Wr reg "16 word"

type_synonym device = "bus_op list \<Rightarrow> reg \<Rightarrow> 16 word"

datatype error = AttributeError | ValueError

text \<open>
  The instance attributes of a \<^verbatim>\<open>TLA2024\<close> object: \<^verbatim>\<open>i2c_device\<close> (here the transactions
  made through it), \<^verbatim>\<open>_last_one_shot\<close> and \<^verbatim>\<open>range\<close>. The class defines no property
  named \<^verbatim>\<open>range\<close>, so \<^verbatim>\<open>self.range\<close> is an ordinary attribute, absent until it is first
  assigned.
\<close>

record tla2024 =
  transactions :: "bus_op list"
  last_one_shot :: "pyfloat option"
  range_attr :: "int option"

definition read_register :: "device \<Rightarrow> reg \<Rightarrow> tla2024 \<Rightarrow> 16 word \<times> tla2024" where
  "read_register dev r s =
     (let v = dev (transactions s) r in (v, s\<lparr>transactions := transactions s @ [Rd r v]\<rparr>))"

definition write_register :: "reg \<Rightarrow> 16 word \<Rightarrow> tla2024 \<Rightarrow> tla2024" where
  "write_register r v s = s\<lparr>transactions := transactions s @ [Wr r v]\<rparr>"

text \<open>
  The register descriptors of the register library. \<^verbatim>\<open>RWBits(num_bits, register, lowest_bit)\<close>
  reads the register and extracts the field, or reads the register, replaces the field and
  writes the register back. \<^verbatim>\<open>RWBit(register, bit)\<close> does the same for one bit and yields a
  \<^verbatim>\<open>bool\<close>. The two bytes are transferred most significant first
  (\<^verbatim>\<open>lsb_first=False\<close>), so bit \<open>n\<close> of the descriptor is bit \<open>n\<close> of the register word.
\<close>

definition bit_mask :: "nat \<Rightarrow> nat \<Rightarrow> 16 word" where
  "bit_mask num_bits lowest_bit = push_bit lowest_bit (mask num_bits)"

definition rwbits_get :: "device \<Rightarrow> nat \<Rightarrow> reg \<Rightarrow> nat \<Rightarrow> tla2024 \<Rightarrow> int \<times> tla2024" where
  "rwbits_get dev num_bits r lowest_bit s =
     (case read_register dev r s of
        (v, s') \<Rightarrow> (uint (drop_bit lowest_bit (v AND bit_mask num_bits lowest_bit)), s'))"

definition rwbits_set :: "device \<Rightarrow> nat \<Rightarrow> reg \<Rightarrow> nat \<Rightarrow> int \<Rightarrow> tla2024 \<Rightarrow> tla2024" where
  "rwbits_set dev num_bits r lowest_bit val s =
     (case read_register dev r s of
        (v, s') \<Rightarrow>
          write_register r
            ((v AND NOT (bit_mask num_bits lowest_bit)) OR word_of_int (push_bit lowest_bit val)) s')"

definition rwbit_get :: "device \<Rightarrow> reg \<Rightarrow> nat \<Rightarrow> tla2024 \<Rightarrow> bool \<times> tla2024" where
  "rwbit_get dev r b s =
     (case read_register dev r s of (v, s') \<Rightarrow> (v AND push_bit b 1 \<noteq> 0, s'))"

definition rwbit_set :: "device \<Rightarrow> reg \<Rightarrow> nat \<Rightarrow> bool \<Rightarrow> tla2024 \<Rightarrow> tla2024" where
  "rwbit_set dev r b val s =
     (case read_register dev r s of
        (v, s') \<Rightarrow>
          write_register r (if val then v OR push_bit b 1 else v AND NOT (push_bit b 1)) s')"

text \<open>The class attributes \<^verbatim>\<open>_raw_adc_read\<close>, \<^verbatim>\<open>_os\<close>, \<^verbatim>\<open>_mux\<close>, \<^verbatim>\<open>_pga\<close>, \<^verbatim>\<open>_mode\<close>, \<^verbatim>\<open>_data_rate\<close>.\<close>

definition raw_adc_read :: "device \<Rightarrow> tla2024 \<Rightarrow> int \<times> tla2024" where
  "raw_adc_read dev s = (case read_register dev DATA_REG s of (w, s') \<Rightarrow> (unpack_h w, s'))"

definition os_get :: "device \<Rightarrow> tla2024 \<Rightarrow> bool \<times> tla2024" where
  "os_get dev = rwbit_get dev CONFIG_REG 15"

definition os_set :: "device \<Rightarrow> bool \<Rightarrow> tla2024 \<Rightarrow> tla2024" where
  "os_set dev = rwbit_set dev CONFIG_REG 15"

definition mux_get :: "device \<Rightarrow> tla2024 \<Rightarrow> int \<times> tla2024" where
  "mux_get dev = rwbits_get dev 3 CONFIG_REG 12"

definition mux_set :: "device \<Rightarrow> int \<Rightarrow> tla2024 \<Rightarrow> tla2024" where
  "mux_set dev = rwbits_set dev 3 CONFIG_REG 12"

definition pga_get :: "device \<Rightarrow> tla2024 \<Rightarrow> int \<times> tla2024" where
  "pga_get dev = rwbits_get dev 3 CONFIG_REG 9"

definition pga_set :: "device \<Rightarrow> int \<Rightarrow> tla2024 \<Rightarrow> tla2024" where
  "pga_set dev = rwbits_set dev 3 CONFIG_REG 9"

definition mode_get :: "device \<Rightarrow> tla2024 \<Rightarrow> bool \<times> tla2024" where
  "mode_get dev = rwbit_get dev CONFIG_REG 8"

definition mode_set :: "device \<Rightarrow> bool \<Rightarrow> tla2024 \<Rightarrow> tla2024" where
  "mode_set dev = rwbit_set dev CONFIG_REG 8"

definition data_rate_get :: "device \<Rightarrow> tla2024 \<Rightarrow> int \<times> tla2024" where
  "data_rate_get dev = rwbits_get dev 3 CONFIG_REG 5"

definition data_rate_set :: "device \<Rightarrow> int \<Rightarrow> tla2024 \<Rightarrow> tla2024" where
  "data_rate_set dev = rwbits_set dev 3 CONFIG_REG 5"

subsection \<open>Voltage conversion\<close>

text \<open>\<^verbatim>\<open>_read_lsb\<close>: read the DATA register and decode the sample.\<close>

definition read_lsb :: "device \<Rightarrow> tla2024 \<Rightarrow> int \<times> tla2024" where
  "read_lsb dev s = (case raw_adc_read dev s of (raw, s') \<Rightarrow> (lsb_of_raw raw, s'))"

text \<open>
  The full-scale value of \<^verbatim>\<open>_read_volts\<close>, for a non-negative \<^verbatim>\<open>self.range\<close>:
  \<^verbatim>\<open>
    v_fsr = 8192 >> self.range
    if self.range == 0:
        v_fsr = 6144
  \<close>
\<close>

definition v_fsr_of_range :: "int \<Rightarrow> int" where
  "v_fsr_of_range r = (let v_fsr = drop_bit (nat r) 8192 in if r = 0 then 6144 else v_fsr)"

text \<open>
  The float arithmetic of \<^verbatim>\<open>_read_volts\<close>:
  \<^verbatim>\<open>
    v_fsr = float(v_fsr)
    converted = (value_lsb / 2047.0) * v_fsr
    return converted / 1000.0
  \<close>
\<close>

definition convert :: "rounding \<Rightarrow> int \<Rightarrow> int \<Rightarrow> pyfloat" where
  "convert rnd value_lsb v_fsr =
     (let v = float_of_int v_fsr;
          converted = fmul rnd (fdiv rnd (float_of_int value_lsb) 2047) v
      in fdiv rnd converted 1000)"

text \<open>
  \<^verbatim>\<open>_read_volts\<close>. Reading an attribute that was never assigned raises \<^verbatim>\<open>AttributeError\<close>,
  and a shift by a negative count raises \<^verbatim>\<open>ValueError\<close>; both happen after the DATA
  register has been read.
\<close>

definition read_volts :: "rounding \<Rightarrow> device \<Rightarrow> tla2024 \<Rightarrow> (error + pyfloat) \<times> tla2024" where
  "read_volts rnd dev s =
     (case read_lsb dev s of
        (value_lsb, s') \<Rightarrow>
          (case range_attr s' of
             None \<Rightarrow> (Inl AttributeError, s')
           | Some r \<Rightarrow>
               if r < 0 then (Inl ValueError, s')
               else (Inr (convert rnd value_lsb (v_fsr_of_range r)), s')))"

subsection \<open>Properties and methods of the handle\<close>

text \<open>
  A call returns its value or the exception it raised, together with the handle after the
  call. The arguments of the setters are Python integers. The mode setter contains the only
  loop, \<^verbatim>\<open>while self._os: pass\<close>, which runs for as long as the device answers with the
  status bit set; a call that never returns has the value \<open>None\<close>.
\<close>

definition get_mode :: "device \<Rightarrow> tla2024 \<Rightarrow> bool \<times> tla2024" where
  "get_mode dev s = mode_get dev s"

partial_function (option) wait_os :: "device \<Rightarrow> tla2024 \<Rightarrow> tla2024 option" where
  "wait_os dev s = (case os_get dev s of (b, s') \<Rightarrow> if b then wait_os dev s' else Some s')"

declare wait_os.simps [code]

definition set_mode ::
  "rounding \<Rightarrow> device \<Rightarrow> int \<Rightarrow> tla2024 \<Rightarrow> ((error + unit) \<times> tla2024) option" where
  "set_mode rnd dev mode s =
     (if \<not> is_valid Mode_values mode then Some (Inl AttributeError, s)
      else if mode = CONTINUOUS then Some (Inr (), mode_set dev (mode \<noteq> 0) s)
      else
        (let s1 = mode_set dev (mode \<noteq> 0) s;
             s2 = os_set dev True s1
         in case wait_os dev s2 of
              None \<Rightarrow> None
            | Some s3 \<Rightarrow>
                (case read_volts rnd dev s3 of
                   (Inl e, s4) \<Rightarrow> Some (Inl e, s4)
                 | (Inr v, s4) \<Rightarrow> Some (Inr (), s4\<lparr>last_one_shot := Some v\<rparr>))))"

definition voltage ::
  "rounding \<Rightarrow> device \<Rightarrow> tla2024 \<Rightarrow> (error + pyfloat option) \<times> tla2024" where
  "voltage rnd dev s =
     (case get_mode dev s of
        (m, s') \<Rightarrow>
          if (if m then 1 else 0) = ONE_SHOT then (Inr (last_one_shot s'), s')
          else (case read_volts rnd dev s' of
                  (Inl e, s'') \<Rightarrow> (Inl e, s'')
                | (Inr v, s'') \<Rightarrow> (Inr (Some v), s'')))"

definition get_input_channel :: "device \<Rightarrow> tla2024 \<Rightarrow> int \<times> tla2024" where
  "get_input_channel dev s = mux_get dev s"

definition set_input_channel :: "device \<Rightarrow> int \<Rightarrow> tla2024 \<Rightarrow> (error + unit) \<times> tla2024" where
  "set_input_channel dev channel s =
     (if channel \<notin> set [0..3] then (Inl AttributeError, s)
      else (Inr (), mux_set dev (4 + channel) s))"

definition get_data_rate :: "device \<Rightarrow> tla2024 \<Rightarrow> int \<times> tla2024" where
  "get_data_rate dev s = data_rate_get dev s"

definition set_data_rate :: "device \<Rightarrow> int \<Rightarrow> tla2024 \<Rightarrow> (error + unit) \<times> tla2024" where
  "set_data_rate dev rate s =
     (if \<not> is_valid DataRate_values rate then (Inl AttributeError, s)
      else (Inr (), data_rate_set dev rate s))"

definition get_mux :: "device \<Rightarrow> tla2024 \<Rightarrow> int \<times> tla2024" where
  "get_mux dev s = mux_get dev s"

definition set_mux :: "device \<Rightarrow> int \<Rightarrow> tla2024 \<Rightarrow> (error + unit) \<times> tla2024" where
  "set_mux dev mux_connection s =
     (if \<not> is_valid Mux_values mux_connection then (Inl AttributeError, s)
      else (Inr (), mux_set dev mux_connection s))"

text \<open>
  \<^verbatim>\<open>tla.range\<close> and \<^verbatim>\<open>tla.range = value\<close>: attribute access on the instance, with no
  descriptor in between.
\<close>

definition get_range :: "tla2024 \<Rightarrow> (error + int) \<times> tla2024" where
  "get_range s = (case range_attr s of None \<Rightarrow> (Inl AttributeError, s) | Some r \<Rightarrow> (Inr r, s))"

definition set_range :: "int \<Rightarrow> tla2024 \<Rightarrow> (error + unit) \<times> tla2024" where
  "set_range val s = (Inr (), s\<lparr>range_attr := Some val\<rparr>)"

definition read ::
  "rounding \<Rightarrow> device \<Rightarrow> int \<Rightarrow> tla2024 \<Rightarrow> ((error + pyfloat option) \<times> tla2024) option" where
  "read rnd dev channel s =
     (case set_input_channel dev channel s of
        (Inl e, s1) \<Rightarrow> Some (Inl e, s1)
      | (Inr u, s1) \<Rightarrow>
          (case set_mode rnd dev ONE_SHOT s1 of
             None \<Rightarrow> None
           | Some (Inl e, s2) \<Rightarrow> Some (Inl e, s2)
           | Some (Inr u, s2) \<Rightarrow> Some (voltage rnd dev s2)))"

text \<open>
  \<^verbatim>\<open>__init__\<close>: the new object starts with no transactions of its own; what the device holds
  from before is part of how it answers. Creating the \<^verbatim>\<open>I2CDevice\<close> touches no register
  and is left out.
\<close>

definition init :: "rounding \<Rightarrow> device \<Rightarrow> ((error + unit) \<times> tla2024) option" where
  "init rnd dev =
     (let s0 = \<lparr>transactions = [], last_one_shot = None, range_attr = None\<rparr> in
      case set_mode rnd dev CONTINUOUS s0 of
        None \<Rightarrow> None
      | Some (Inl e, s1) \<Rightarrow> Some (Inl e, s1)
      | Some (Inr u, s1) \<Rightarrow>
          (case set_mux dev MUX_AIN0_GND s1 of
             (Inl e, s2) \<Rightarrow> Some (Inl e, s2)
           | (Inr u, s2) \<Rightarrow>
               (case set_data_rate dev RATE_3300SPS s2 of
                  (Inl e, s3) \<Rightarrow> Some (Inl e, s3)
                | (Inr u, s3) \<Rightarrow> Some (set_range RANGE_2_048V s3))))"

subsection \<open>Calls made by a user of the handle\<close>

text \<open>
  A caller's straight-line script is a list of property accesses and method calls on one
  handle. A statement that raises ends the script with that exception; otherwise the
  script yields the value of its last statement.
\<close>

datatype call =
    Get_voltage
  | Get_input_channel | Set_input_channel int
  | Get_mode | Set_mode int
  | Get_data_rate | Set_data_rate int
  | Get_mux | Set_mux int
  | Get_range | Set_range int
  | Read int

datatype pyval = PyNone | PyFloat pyfloat | PyInt int | PyBool bool

fun of_voltage :: "pyfloat option \<Rightarrow> pyval" where
  "of_voltage None = PyNone"
| "of_voltage (Some x) = PyFloat x"

fun exec :: "rounding \<Rightarrow> device \<Rightarrow> call \<Rightarrow> tla2024 \<Rightarrow> ((error + pyval) \<times> tla2024) option" where
  "exec rnd dev Get_voltage s =
     (case voltage rnd dev s of (r, s') \<Rightarrow> Some (map_sum id of_voltage r, s'))"
| "exec rnd dev Get_input_channel s =
     (case get_input_channel dev s of (v, s') \<Rightarrow> Some (Inr (PyInt v), s'))"
| "exec rnd dev (Set_input_channel channel) s =
     (case set_input_channel dev channel s of (r, s') \<Rightarrow> Some (map_sum id (\<lambda>u. PyNone) r, s'))"
| "exec rnd dev Get_mode s =
     (case get_mode dev s of (v, s') \<Rightarrow> Some (Inr (PyBool v), s'))"
| "exec rnd dev (Set_mode mode) s =
     (case set_mode rnd dev mode s of
        None \<Rightarrow> None
      | Some (r, s') \<Rightarrow> Some (map_sum id (\<lambda>u. PyNone) r, s'))"
| "exec rnd dev Get_data_rate s =
     (case get_data_rate dev s of (v, s') \<Rightarrow> Some (Inr (PyInt v), s'))"
| "exec rnd dev (Set_data_rate rate) s =
     (case set_data_rate dev rate s of (r, s') \<Rightarrow> Some (map_sum id (\<lambda>u. PyNone) r, s'))"
| "exec rnd dev Get_mux s =
     (case get_mux dev s of (v, s') \<Rightarrow> Some (Inr (PyInt v), s'))"
| "exec rnd dev (Set_mux mux_connection) s =
     (case set_mux dev mux_connection s of (r, s') \<Rightarrow> Some (map_sum id (\<lambda>u. PyNone) r, s'))"
| "exec rnd dev Get_range s =
     (case get_range s of (r, s') \<Rightarrow> Some (map_sum id PyInt r, s'))"
| "exec rnd dev (Set_range val) s =
     (case set_range val s of (r, s') \<Rightarrow> Some (map_sum id (\<lambda>u. PyNone) r, s'))"
| "exec rnd dev (Read channel) s =
     (case read rnd dev channel s of
        None \<Rightarrow> None
      | Some (r, s') \<Rightarrow> Some (map_sum id of_voltage r, s'))"

fun script ::
  "rounding \<Rightarrow> device \<Rightarrow> call list \<Rightarrow> tla2024 \<Rightarrow> ((error + pyval) \<times> tla2024) option" where
  "script rnd dev [] s = Some (Inr PyNone, s)"
| "script rnd dev [c] s = exec rnd dev c s"
| "script rnd dev (c # c' # cs) s =
     (case exec rnd dev c s of
        None \<Rightarrow> None
      | Some (Inl e, s') \<Rightarrow> Some (Inl e, s')
      | Some (Inr v, s') \<Rightarrow> script rnd dev (c' # cs) s')"

text \<open>The calls that start a one-shot acquisition.\<close>

fun acquires :: "call \<Rightarrow> bool" where
  "acquires (Set_mode mode) = (mode = ONE_SHOT)"
| "acquires (Read channel) = (channel \<in> set [0..3])"
| "acquires c = False"

subsection \<open>Auxiliary notions for stating the properties\<close>

text \<open>The polling loop with a bound on the number of reads of the status bit.\<close>

fun poll_fuel :: "device \<Rightarrow> nat \<Rightarrow> tla2024 \<Rightarrow> tla2024 option" where
  "poll_fuel dev 0 s = None"
| "poll_fuel dev (Suc n) s =
     (case os_get dev s of (b, s') \<Rightarrow> if b then poll_fuel dev n s' else Some s')"

text \<open>
  The values \<open>vs\<close> are what the device answers to consecutive reads of register \<open>r\<close>
  that follow the transactions \<open>tr\<close>.
\<close>

fun answered :: "device \<Rightarrow> reg \<Rightarrow> bus_op list \<Rightarrow> 16 word list \<Rightarrow> bool" where
  "answered dev r tr [] = True"
| "answered dev r tr (v # vs) = (v = dev tr r \<and> answered dev r (tr @ [Rd r v]) vs)"

text \<open>The handle after the two register writes that start a one-shot conversion.\<close>

definition triggered :: "device \<Rightarrow> tla2024 \<Rightarrow> tla2024" where
  "triggered dev s = os_set dev True (mode_set dev True s)"

text \<open>
  A rounding function with relative error at most \<open>u\<close> on the magnitudes from \<open>lo\<close> to
  \<open>hi\<close>. Round-to-nearest in a binary format with \<open>p\<close> bits of precision meets this with
  \<open>u = 2 ^ - p\<close> whenever \<open>lo\<close> and \<open>hi\<close> lie in the format's normal range: binary64 with
  \<open>p = 53\<close>, binary32 with \<open>p = 24\<close>. Exact arithmetic meets it with \<open>u = 0\<close>.
\<close>

definition rounding_within :: "rat \<Rightarrow> rat \<Rightarrow> rat \<Rightarrow> rounding \<Rightarrow> bool" where
  "rounding_within u lo hi rnd =
     (\<forall>x. lo \<le> \<bar>x\<bar> \<and> \<bar>x\<bar> \<le> hi \<longrightarrow> \<bar>rnd x - x\<bar> \<le> u * \<bar>x\<bar>)"

definition exact :: rounding where
  "exact x = x"

text \<open>
  The full-scale computation as the specification words it: the shift exponent is the value
  associated with the range in the enumeration, 3, 2, 1, 0 for the codes 0 to 3, and the
  top range has the constant 6144.
\<close>

definition spec_range_shift_exponent :: "int \<Rightarrow> int option" where
  "spec_range_shift_exponent r = map_of [(0, 3), (1, 2), (2, 1), (3, 0)] r"

definition spec_v_fsr :: "int \<Rightarrow> int option" where
  "spec_v_fsr r =
     (if r = 0 then Some 6144
      else map_option (\<lambda>e. drop_bit (nat e) 8192) (spec_range_shift_exponent r))"

text \<open>
  A simulated device for concrete runs. Its CONFIG register holds \<open>c0\<close> at first and then
  the last value written; every read of CONFIG clears the status bit for the reads that
  follow, so that the status bit set by a write is seen set by the first poll and clear by
  the second. Its DATA register always reads \<open>d\<close>.
\<close>

fun sim_config :: "16 word \<Rightarrow> bus_op list \<Rightarrow> 16 word" where
  "sim_config c [] = c"
| "sim_config c (Wr CONFIG_REG v # tr) = sim_config v tr"
| "sim_config c (Rd CONFIG_REG v # tr) = sim_config (c AND NOT 0x8000) tr"
| "sim_config c (Wr DATA_REG v # tr) = sim_config c tr"
| "sim_config c (Rd DATA_REG v # tr) = sim_config c tr"

fun sim_device :: "16 word \<Rightarrow> 16 word \<Rightarrow> device" where
  "sim_device c0 d tr DATA_REG = d"
| "sim_device c0 d tr CONFIG_REG = sim_config c0 tr"

section \<open>Properties of the raw sample decode\<close>

lemma sint16_bounds: "- 32768 \<le> sint (w :: 16 word) \<and> sint w < 32768"
  using sint_ge [of w] sint_lt [of w] by simp

lemma shifted_bounds:
  "- 2048 \<le> drop_bit 4 (sint (w :: 16 word)) \<and> drop_bit 4 (sint w) < 2048"
  using sint16_bounds [of w] by (simp add: drop_bit_eq_div) presburger

lemma bit_of_small_int:
  fixes v :: int
  assumes "- 2048 \<le> v" "v < 2048" "11 \<le> n"
  shows "bit v n \<longleftrightarrow> v < 0"
proof -
  have "signed_take_bit 11 v = v"
    using assms by (simp add: signed_take_bit_int_eq_self_iff)
  then have "bit v n \<longleftrightarrow> bit (signed_take_bit 11 v) n" by simp
  also have "\<dots> \<longleftrightarrow> bit v 11"
    using assms(3) by (simp add: bit_signed_take_bit_iff min_def)
  also have "\<dots> \<longleftrightarrow> v < 0"
  proof -
    have "v div 2 ^ 11 = (if v < 0 then - 1 else 0)"
      using assms by (auto simp: div_eq_minus1 zdiv_eq_0_iff intro: div_pos_neg_trivial)
    then show ?thesis by (simp add: bit_iff_odd)
  qed
  finally show ?thesis .
qed

lemma and_single_bit: "(v::int) AND push_bit n 1 = (if bit v n then push_bit n 1 else 0)"
  by (rule bit_eqI) (auto simp: bit_and_iff bit_exp_iff)

lemma nibble_mask: "(0xF000::int) = push_bit 12 (mask 4)"
  by (simp add: mask_eq_exp_minus_1)

lemma bit_nibble_mask: "bit (push_bit 12 (mask 4 :: int)) n \<longleftrightarrow> 12 \<le> n \<and> n < 16"
  by (auto simp: bit_push_bit_iff bit_mask_iff)

text \<open>
  On a signed 16-bit reading the two branches of the sign extension change nothing: after the
  shift, bit 11 and all bits above it already agree with the sign.
\<close>

lemma lsb_of_raw_sint: "lsb_of_raw (sint (w :: 16 word)) = sint w div 16"
proof -
  define v where "v = drop_bit 4 (sint w)"
  have b: "- 2048 \<le> v" "v < 2048"
    using shifted_bounds [of w] by (simp_all add: v_def)
  have hi: "bit v n \<longleftrightarrow> v < 0" if "11 \<le> n" for n
    using bit_of_small_int [OF b that] .
  have c: "v AND push_bit 11 1 \<noteq> 0 \<longleftrightarrow> v < 0"
    using hi [of 11] by (simp only: and_single_bit) simp
  have o: "v OR 0xF000 = v" if "v < 0"
    unfolding nibble_mask
    by (rule bit_eqI) (use that hi in \<open>auto simp: bit_or_iff bit_nibble_mask\<close>)
  have a: "v AND NOT 0xF000 = v" if "\<not> v < 0"
    unfolding nibble_mask
    by (rule bit_eqI) (use that hi in \<open>auto simp: bit_and_iff bit_not_iff bit_nibble_mask\<close>)
  have "lsb_of_raw (sint w) = v"
    unfolding lsb_of_raw_def Let_def v_def [symmetric] using c o a by auto
  then show ?thesis
    by (simp add: v_def drop_bit_eq_div)
qed

lemma read_lsb_eq:
  "read_lsb dev s =
     (sint (dev (transactions s) DATA_REG) div 16,
      s\<lparr>transactions := transactions s @ [Rd DATA_REG (dev (transactions s) DATA_REG)]\<rparr>)"
  by (simp add: read_lsb_def raw_adc_read_def read_register_def unpack_h_def Let_def
      lsb_of_raw_sint)

text \<open>
  Claim C3. \<^verbatim>\<open>_read_lsb\<close> reads the DATA register once, shifts the signed 16-bit value right
  by four bits and sign-extends it: the result is the signed value divided by 16 (rounded
  down), a 12-bit two's-complement number between -2048 and 2047. A device that answers
  \<open>0x7FF0\<close>, \<open>0x0000\<close> or \<open>0x8000\<close> yields 2047, 0 and -2048.
\<close>

theorem read_lsb_sign_extension:
  "fst (read_lsb dev s) = sint (dev (transactions s) DATA_REG) div 2 ^ 4
   \<and> - 2048 \<le> fst (read_lsb dev s) \<and> fst (read_lsb dev s) \<le> 2047
   \<and> transactions (snd (read_lsb dev s)) =
       transactions s @ [Rd DATA_REG (dev (transactions s) DATA_REG)]
   \<and> fst (read_lsb (\<lambda>tr r. 0x7FF0) s) = 2047
   \<and> fst (read_lsb (\<lambda>tr r. 0x0000) s) = 0
   \<and> fst (read_lsb (\<lambda>tr r. 0x8000) s) = - 2048"
proof -
  have "- 2048 \<le> sint (dev (transactions s) DATA_REG) div 16"
    and "sint (dev (transactions s) DATA_REG) div 16 \<le> 2047"
    using shifted_bounds [of "dev (transactions s) DATA_REG"]
    by (simp_all add: drop_bit_eq_div)
  then show ?thesis
    by (simp add: read_lsb_eq)
qed

section \<open>Register transactions\<close>

lemma read_register_eq:
  "read_register dev r s =
     (dev (transactions s) r, s\<lparr>transactions := transactions s @ [Rd r (dev (transactions s) r)]\<rparr>)"
  by (simp add: read_register_def Let_def)

lemma rwbit_get_eq:
  "rwbit_get dev r b s =
     (dev (transactions s) r AND push_bit b 1 \<noteq> 0,
      s\<lparr>transactions := transactions s @ [Rd r (dev (transactions s) r)]\<rparr>)"
  by (simp add: rwbit_get_def read_register_eq)

lemma rwbit_set_eq:
  "rwbit_set dev r b val s =
     s\<lparr>transactions := transactions s @
        [Rd r (dev (transactions s) r),
         Wr r (if val then dev (transactions s) r OR push_bit b 1
               else dev (transactions s) r AND NOT (push_bit b 1))]\<rparr>"
  by (simp add: rwbit_set_def read_register_eq write_register_def)

lemma rwbits_get_eq:
  "rwbits_get dev n r l s =
     (uint (drop_bit l (dev (transactions s) r AND bit_mask n l)),
      s\<lparr>transactions := transactions s @ [Rd r (dev (transactions s) r)]\<rparr>)"
  by (simp add: rwbits_get_def read_register_eq)

lemma rwbits_set_eq:
  "rwbits_set dev n r l val s =
     s\<lparr>transactions := transactions s @
        [Rd r (dev (transactions s) r),
         Wr r ((dev (transactions s) r AND NOT (bit_mask n l)) OR word_of_int (push_bit l val))]\<rparr>"
  by (simp add: rwbits_set_def read_register_eq write_register_def)

lemma is_valid_Mode: "is_valid Mode_values v \<longleftrightarrow> v = 0 \<or> v = 1"
  by (auto simp: is_valid_def cv_string_keys_def Mode_values_def)

lemma is_valid_Mux: "is_valid Mux_values v \<longleftrightarrow> 0 \<le> v \<and> v \<le> 7"
  by (auto simp: is_valid_def cv_string_keys_def Mux_values_def)

lemma is_valid_DataRate: "is_valid DataRate_values v \<longleftrightarrow> 0 \<le> v \<and> v \<le> 6"
  by (auto simp: is_valid_def cv_string_keys_def DataRate_values_def)

lemma is_valid_Range: "is_valid Range_values v \<longleftrightarrow> 0 \<le> v \<and> v \<le> 5"
  by (auto simp: is_valid_def cv_string_keys_def Range_values_def)

lemma setters_reject_without_bus_access:
  "\<not> is_valid Mode_values m \<Longrightarrow> set_mode rnd dev m s = Some (Inl AttributeError, s)"
  "c \<notin> {0, 1, 2, 3} \<Longrightarrow> set_input_channel dev c s = (Inl AttributeError, s)"
  "\<not> is_valid Mux_values x \<Longrightarrow> set_mux dev x s = (Inl AttributeError, s)"
  "\<not> is_valid DataRate_values d \<Longrightarrow> set_data_rate dev d s = (Inl AttributeError, s)"
  by (auto simp: set_mode_def set_input_channel_def set_mux_def set_data_rate_def)

section \<open>The polling loop\<close>

lemma os_get_eq:
  "os_get dev s =
     (bit (dev (transactions s) CONFIG_REG) 15,
      s\<lparr>transactions := transactions s @ [Rd CONFIG_REG (dev (transactions s) CONFIG_REG)]\<rparr>)"
  by (simp add: os_get_def rwbit_get_eq bit_iff_and_push_bit_not_eq_0)

lemma mode_get_eq:
  "mode_get dev s =
     (bit (dev (transactions s) CONFIG_REG) 8,
      s\<lparr>transactions := transactions s @ [Rd CONFIG_REG (dev (transactions s) CONFIG_REG)]\<rparr>)"
  by (simp add: mode_get_def rwbit_get_eq bit_iff_and_push_bit_not_eq_0)


lemma poll_fuel_Some:
  "poll_fuel dev n s = Some s' \<Longrightarrow>
     \<exists>polls. polls \<noteq> [] \<and> length polls \<le> n \<and> \<not> bit (last polls) 15
       \<and> (\<forall>c \<in> set (butlast polls). bit c 15)
       \<and> answered dev CONFIG_REG (transactions s) polls
       \<and> s' = s\<lparr>transactions := transactions s @ map (Rd CONFIG_REG) polls\<rparr>"
proof (induction n arbitrary: s)
  case 0
  then show ?case by simp
next
  case (Suc n)
  let ?c = "dev (transactions s) CONFIG_REG"
  let ?s1 = "s\<lparr>transactions := transactions s @ [Rd CONFIG_REG ?c]\<rparr>"
  show ?case
  proof (cases "bit ?c 15")
    case False
    with Suc.prems have "s' = ?s1" by (simp add: os_get_eq)
    with False show ?thesis
      by (intro exI [of _ "[?c]"]) simp
  next
    case True
    with Suc.prems have "poll_fuel dev n ?s1 = Some s'" by (simp add: os_get_eq)
    from Suc.IH [OF this] obtain polls where p: "polls \<noteq> []" "length polls \<le> n"
      "\<not> bit (last polls) 15" "\<forall>c \<in> set (butlast polls). bit c 15"
      "answered dev CONFIG_REG (transactions ?s1) polls"
      "s' = ?s1\<lparr>transactions := transactions ?s1 @ map (Rd CONFIG_REG) polls\<rparr>"
      by blast
    with True show ?thesis
      by (intro exI [of _ "?c # polls"]) simp
  qed
qed

lemma poll_fuel_wait_os: "poll_fuel dev n s = Some s' \<Longrightarrow> wait_os dev s = Some s'"
proof (induction n arbitrary: s)
  case 0
  then show ?case by simp
next
  case (Suc n)
  then show ?case
    by (subst wait_os.simps) (auto split: prod.splits if_splits)
qed

lemma wait_os_poll_fuel: "wait_os dev s = Some s' \<Longrightarrow> \<exists>n. poll_fuel dev n s = Some s'"
proof (induction rule: wait_os.raw_induct [rotated 1, consumes 1, case_names step])
  case (step wait_os' dev s s')
  show ?case
  proof (cases "fst (os_get dev s)")
    case True
    with step(2) have "wait_os' dev (snd (os_get dev s)) = Some s'"
      by (auto split: prod.splits)
    from step(1) [OF this] obtain n where "poll_fuel dev n (snd (os_get dev s)) = Some s'" by blast
    with True have "poll_fuel dev (Suc n) s = Some s'"
      by (auto split: prod.splits)
    then show ?thesis ..
  next
    case False
    with step(2) have "poll_fuel dev (Suc 0) s = Some s'"
      by (auto split: prod.splits)
    then show ?thesis ..
  qed
qed

lemma wait_os_iff: "wait_os dev s = Some s' \<longleftrightarrow> (\<exists>n. poll_fuel dev n s = Some s')"
  using poll_fuel_wait_os wait_os_poll_fuel by blast

section \<open>Bit fields of the configuration register\<close>

lemma sim_config_append: "sim_config c (tr @ tr') = sim_config (sim_config c tr) tr'"
  by (induction c tr rule: sim_config.induct) simp_all

lemma field_read_back:
  fixes v :: "16 word"
  assumes "0 \<le> val" "val < 2 ^ n" "l + n \<le> 16"
  shows "uint (drop_bit l (((v AND NOT (bit_mask n l)) OR word_of_int (push_bit l val))
            AND bit_mask n l)) = val"
proof -
  let ?x = "word_of_int val :: 16 word"
  have "drop_bit l (((v AND NOT (bit_mask n l)) OR word_of_int (push_bit l val)) AND bit_mask n l)
        = take_bit n ?x"
    unfolding bit_mask_def
    by (rule bit_eqI) (use assms(3) in \<open>auto simp: bit_simps\<close>)
  moreover have "uint (take_bit n ?x) = val"
    using assms by (simp add: unsigned_take_bit_eq uint_word_of_int_eq take_bit_int_eq_self min_def)
  ultimately show ?thesis by simp
qed

lemma sim_input_channel_read_back:
  assumes "c \<in> {0, 1, 2, 3}"
  shows "fst (get_input_channel (sim_device c0 d)
            (snd (set_input_channel (sim_device c0 d) c s))) = 4 + c"
proof -
  let ?v = "sim_config c0 (transactions s)"
  let ?w = "(?v AND NOT (bit_mask 3 12)) OR word_of_int (push_bit 12 (4 + c))"
  have "snd (set_input_channel (sim_device c0 d) c s)
        = s\<lparr>transactions := transactions s @ [Rd CONFIG_REG ?v, Wr CONFIG_REG ?w]\<rparr>"
    using assms by (auto simp: set_input_channel_def mux_set_def rwbits_set_eq)
  moreover have "sim_config c0 (transactions s @ [Rd CONFIG_REG ?v, Wr CONFIG_REG ?w]) = ?w"
    by (simp add: sim_config_append)
  ultimately have "fst (get_input_channel (sim_device c0 d)
            (snd (set_input_channel (sim_device c0 d) c s)))
      = uint (drop_bit 12 (?w AND bit_mask 3 12))"
    by (simp add: get_input_channel_def mux_get_def rwbits_get_eq)
  also have "\<dots> = 4 + c"
    by (rule field_read_back) (use assms in auto)
  finally show ?thesis .
qed

lemma bit_mask_values: "bit_mask 3 12 = 0x7000" "bit_mask 3 9 = 0x0E00" "bit_mask 3 5 = 0x00E0"
  by (simp_all add: bit_mask_def mask_eq_exp_minus_1)

lemma set_input_channel_writes:
  "map (\<lambda>c. transactions (snd (set_input_channel dev c s))) [0, 1, 2, 3]
   = map (\<lambda>m. transactions s @
            [Rd CONFIG_REG (dev (transactions s) CONFIG_REG),
             Wr CONFIG_REG ((dev (transactions s) CONFIG_REG AND NOT 0x7000) OR m)])
       [0x4000, 0x5000, 0x6000, 0x7000]"
  by (simp add: set_input_channel_def mux_set_def rwbits_set_eq bit_mask_values)

lemma init_eq:
  "init rnd dev =
     (let a = dev [] CONFIG_REG;
          t1 = [Rd CONFIG_REG a, Wr CONFIG_REG (a AND NOT 0x0100)];
          b = dev t1 CONFIG_REG;
          t2 = t1 @ [Rd CONFIG_REG b, Wr CONFIG_REG ((b AND NOT 0x7000) OR 0x4000)];
          c = dev t2 CONFIG_REG;
          t3 = t2 @ [Rd CONFIG_REG c, Wr CONFIG_REG ((c AND NOT 0x00E0) OR 0x00C0)]
      in Some (Inr (), \<lparr>transactions = t3, last_one_shot = None, range_attr = Some 2\<rparr>))"
  by (simp add: init_def set_mode_def set_mux_def set_data_rate_def set_range_def
      is_valid_Mode is_valid_Mux is_valid_DataRate CONTINUOUS_def MUX_AIN0_GND_def
      RATE_3300SPS_def RANGE_2_048V_def mode_set_def mux_set_def data_rate_set_def
      rwbit_set_eq rwbits_set_eq bit_mask_values Let_def)

lemma pga_untouched:
  fixes a :: "16 word"
  shows "(a AND NOT 0x0100) AND 0x0E00 = a AND 0x0E00"
    "((a AND NOT 0x7000) OR 0x4000) AND 0x0E00 = a AND 0x0E00"
    "((a AND NOT 0x00E0) OR 0x00C0) AND 0x0E00 = a AND 0x0E00"
  by (simp_all add: and.assoc bit.conj_disj_distrib2)

section \<open>The mode setter\<close>

lemma set_mode_continuous:
  "set_mode rnd dev CONTINUOUS s =
     Some (Inr (), s\<lparr>transactions := transactions s @
        [Rd CONFIG_REG (dev (transactions s) CONFIG_REG),
         Wr CONFIG_REG (dev (transactions s) CONFIG_REG AND NOT 0x0100)]\<rparr>)"
  by (simp add: set_mode_def is_valid_Mode CONTINUOUS_def mode_set_def rwbit_set_eq)

lemma read_volts_eq:
  assumes "range_attr s = Some r" "0 \<le> r"
  shows "read_volts rnd dev s =
     (Inr (convert rnd (sint (dev (transactions s) DATA_REG) div 16) (v_fsr_of_range r)),
      s\<lparr>transactions := transactions s @ [Rd DATA_REG (dev (transactions s) DATA_REG)]\<rparr>)"
  using assms by (simp add: read_volts_def read_lsb_eq)

lemma triggered_eq:
  "triggered dev s =
    (let a = dev (transactions s) CONFIG_REG;
         t1 = transactions s @ [Rd CONFIG_REG a, Wr CONFIG_REG (a OR 0x0100)];
         b = dev t1 CONFIG_REG
     in s\<lparr>transactions := t1 @ [Rd CONFIG_REG b, Wr CONFIG_REG (b OR 0x8000)]\<rparr>)"
  by (simp add: triggered_def os_set_def mode_set_def rwbit_set_eq Let_def)

lemma set_mode_one_shot_unfold:
  "set_mode rnd dev ONE_SHOT s =
     (case wait_os dev (triggered dev s) of
        None \<Rightarrow> None
      | Some s3 \<Rightarrow>
          (case read_volts rnd dev s3 of
             (Inl e, s4) \<Rightarrow> Some (Inl e, s4)
           | (Inr v, s4) \<Rightarrow> Some (Inr (), s4\<lparr>last_one_shot := Some v\<rparr>)))"
  by (simp add: set_mode_def is_valid_Mode ONE_SHOT_def CONTINUOUS_def triggered_def Let_def)

lemma set_mode_one_shot_returns:
  assumes r: "range_attr s = Some r" "0 \<le> r"
    and res: "set_mode rnd dev ONE_SHOT s = Some res"
  shows "\<exists>polls w. polls \<noteq> [] \<and> \<not> bit (last polls) 15
           \<and> (\<forall>c \<in> set (butlast polls). bit c 15)
           \<and> answered dev CONFIG_REG (transactions (triggered dev s)) polls
           \<and> answered dev DATA_REG
                (transactions (triggered dev s) @ map (Rd CONFIG_REG) polls) [w]
           \<and> res = (Inr (), s\<lparr>transactions := transactions (triggered dev s)
                        @ map (Rd CONFIG_REG) polls @ [Rd DATA_REG w],
                      last_one_shot := Some (convert rnd (sint w div 16) (v_fsr_of_range r))\<rparr>)"
proof -
  from res obtain s3 where w: "wait_os dev (triggered dev s) = Some s3"
    by (auto simp: set_mode_one_shot_unfold split: option.splits)
  then obtain n where "poll_fuel dev n (triggered dev s) = Some s3"
    using wait_os_poll_fuel by blast
  from poll_fuel_Some [OF this] obtain polls where p: "polls \<noteq> []" "\<not> bit (last polls) 15"
    "\<forall>c \<in> set (butlast polls). bit c 15"
    "answered dev CONFIG_REG (transactions (triggered dev s)) polls"
    "s3 = (triggered dev s)\<lparr>transactions := transactions (triggered dev s) @ map (Rd CONFIG_REG) polls\<rparr>"
    by blast
  have t: "range_attr (triggered dev s) = range_attr s" "last_one_shot (triggered dev s) = last_one_shot s"
    by (simp_all add: triggered_eq Let_def)
  have s3r: "range_attr s3 = Some r" using p(5) r t by simp
  define w where "w = dev (transactions s3) DATA_REG"
  have s3eq: "s3 = s\<lparr>transactions := transactions (triggered dev s) @ map (Rd CONFIG_REG) polls\<rparr>"
    by (subst p(5)) (simp add: triggered_eq Let_def)
  have a: "answered dev DATA_REG (transactions (triggered dev s) @ map (Rd CONFIG_REG) polls) [w]"
    unfolding w_def by (subst s3eq) simp
  have "res = (Inr (), s3\<lparr>transactions := transactions s3 @ [Rd DATA_REG w],
                 last_one_shot := Some (convert rnd (sint w div 16) (v_fsr_of_range r))\<rparr>)"
    using res w read_volts_eq [OF s3r r(2), of rnd dev]
    by (simp add: set_mode_one_shot_unfold w_def)
  also have "s3\<lparr>transactions := transactions s3 @ [Rd DATA_REG w],
                 last_one_shot := Some (convert rnd (sint w div 16) (v_fsr_of_range r))\<rparr>
      = s\<lparr>transactions := transactions (triggered dev s) @ map (Rd CONFIG_REG) polls
                 @ [Rd DATA_REG w],
           last_one_shot := Some (convert rnd (sint w div 16) (v_fsr_of_range r))\<rparr>"
    by (subst (1 2) s3eq) simp
  finally show ?thesis using p(1-4) a
    by (intro exI [of _ polls] exI [of _ w]) simp
qed

lemma set_mode_one_shot_blocks:
  "set_mode rnd dev ONE_SHOT s = None \<longleftrightarrow> (\<forall>n. poll_fuel dev n (triggered dev s) = None)"
proof -
  have "set_mode rnd dev ONE_SHOT s = None \<longleftrightarrow> wait_os dev (triggered dev s) = None"
    by (auto simp: set_mode_one_shot_unfold split: option.splits prod.splits sum.splits)
  also have "\<dots> \<longleftrightarrow> (\<forall>n. poll_fuel dev n (triggered dev s) = None)"
    using wait_os_iff [of dev "triggered dev s"] by (metis not_Some_eq)
  finally show ?thesis .
qed

section \<open>Reading the voltage\<close>

lemma voltage_one_shot:
  assumes "bit (dev (transactions s) CONFIG_REG) 8"
  shows "voltage rnd dev s =
     (Inr (last_one_shot s),
      s\<lparr>transactions := transactions s @ [Rd CONFIG_REG (dev (transactions s) CONFIG_REG)]\<rparr>)"
  using assms by (simp add: voltage_def get_mode_def mode_get_eq ONE_SHOT_def)

lemma voltage_continuous:
  assumes "\<not> bit (dev (transactions s) CONFIG_REG) 8"
  shows "voltage rnd dev s =
     (case read_volts rnd dev
             (s\<lparr>transactions := transactions s @ [Rd CONFIG_REG (dev (transactions s) CONFIG_REG)]\<rparr>) of
        (Inl e, s'') \<Rightarrow> (Inl e, s'')
      | (Inr v, s'') \<Rightarrow> (Inr (Some v), s''))"
  using assms by (simp add: voltage_def get_mode_def mode_get_eq ONE_SHOT_def)

lemma voltage_continuous_value:
  assumes "\<not> bit (dev (transactions s) CONFIG_REG) 8" "range_attr s = Some r" "0 \<le> r"
  shows "voltage rnd dev s =
     (let c = dev (transactions s) CONFIG_REG;
          w = dev (transactions s @ [Rd CONFIG_REG c]) DATA_REG
      in (Inr (Some (convert rnd (sint w div 16) (v_fsr_of_range r))),
          s\<lparr>transactions := transactions s @ [Rd CONFIG_REG c, Rd DATA_REG w]\<rparr>))"
  using assms by (simp add: voltage_continuous read_volts_eq Let_def)

lemma read_volts_cache: "last_one_shot (snd (read_volts rnd dev s)) = last_one_shot s"
  by (simp add: read_volts_def read_lsb_eq split: option.splits)

lemma voltage_cache: "last_one_shot (snd (voltage rnd dev s)) = last_one_shot s"
proof (cases "bit (dev (transactions s) CONFIG_REG) 8")
  case True
  then show ?thesis by (simp add: voltage_one_shot)
next
  case False
  let ?s1 = "s\<lparr>transactions := transactions s @ [Rd CONFIG_REG (dev (transactions s) CONFIG_REG)]\<rparr>"
  have "last_one_shot (snd (voltage rnd dev s)) = last_one_shot (snd (read_volts rnd dev ?s1))"
    using False by (simp add: voltage_continuous split: prod.splits sum.splits)
  then show ?thesis by (simp add: read_volts_cache)
qed

lemma exec_total: "\<not> acquires c \<Longrightarrow> \<exists>r s'. exec rnd dev c s = Some (r, s')"
  by (cases c)
    (auto simp: set_mode_def is_valid_Mode CONTINUOUS_def ONE_SHOT_def read_def
      set_input_channel_def split: prod.splits)

lemma exec_cache:
  assumes "\<not> acquires c" "exec rnd dev c s = Some (r, s')"
  shows "last_one_shot s' = last_one_shot s"
proof (cases c)
  case Get_voltage
  with assms(2) have "s' = snd (voltage rnd dev s)" by (auto split: prod.splits)
  then show ?thesis by (simp add: voltage_cache)
next
  case (Set_mode m)
  with assms show ?thesis
    by (auto simp: set_mode_def is_valid_Mode CONTINUOUS_def ONE_SHOT_def mode_set_def rwbit_set_eq
        split: if_splits)
next
  case (Read ch)
  with assms show ?thesis by (auto simp: read_def set_input_channel_def)
qed (use assms in \<open>auto simp: get_input_channel_def set_input_channel_def get_mode_def
      get_data_rate_def set_data_rate_def get_mux_def set_mux_def get_range_def set_range_def
      mux_get_def mux_set_def mode_get_eq data_rate_get_def data_rate_set_def
      rwbits_get_eq rwbits_set_eq split: prod.splits if_splits option.splits\<close>)

lemma script_cache:
  assumes "\<forall>c \<in> set cs. \<not> acquires c"
  shows "\<exists>r s'. script rnd dev cs s = Some (r, s') \<and> last_one_shot s' = last_one_shot s"
  using assms
proof (induction rnd dev cs s rule: script.induct)
  case (1 rnd dev s)
  then show ?case by simp
next
  case (2 rnd dev c s)
  then show ?case using exec_total [of c rnd dev s] exec_cache [of c rnd dev s] by auto
next
  case (3 rnd dev c c' cs s)
  from 3(2) have nc: "\<not> acquires c" by simp
  from exec_total [OF nc] obtain r s1 where e: "exec rnd dev c s = Some (r, s1)" by blast
  from exec_cache [OF nc e] have k: "last_one_shot s1 = last_one_shot s" .
  show ?case
  proof (cases r)
    case (Inl err)
    with e k show ?thesis by simp
  next
    case (Inr v)
    from 3(1) [OF e [unfolded Inr] refl] 3(2) k
    have "\<exists>r' s'. script rnd dev (c' # cs) s1 = Some (r', s') \<and> last_one_shot s' = last_one_shot s"
      by simp
    with e Inr show ?thesis by simp
  qed
qed

section \<open>Validation in the setters\<close>

text \<open>
  Claim C4. The setters of \<^verbatim>\<open>mode\<close>, \<^verbatim>\<open>input_channel\<close>, \<^verbatim>\<open>mux\<close> and \<^verbatim>\<open>data_rate\<close> reject a
  value outside their valid set with \<^verbatim>\<open>AttributeError\<close> and leave the handle, and with it
  the bus, untouched (lemma \<open>setters_reject_without_bus_access\<close>). The claim also
  names \<^verbatim>\<open>range\<close>, and there the code does not follow it: the class declares the gain field
  \<^verbatim>\<open>_pga\<close> but no \<^verbatim>\<open>range\<close> property, so an assignment to \<^verbatim>\<open>range\<close> is never
  validated. The value 7, which is no member of \<^verbatim>\<open>Range\<close>, is accepted without an error
  and without a transaction, is handed back by a read of \<^verbatim>\<open>range\<close>, and makes the
  conversion use a full scale of \<open>8192 >> 7 = 64\<close>; the same out-of-range values are
  rejected by the setters of \<^verbatim>\<open>mux\<close> and \<^verbatim>\<open>data_rate\<close>.
\<close>

theorem range_assignment_unchecked:
  "\<not> is_valid Range_values 7
   \<and> exec rnd dev (Set_range 7) s = Some (Inr PyNone, s\<lparr>range_attr := Some 7\<rparr>)
   \<and> transactions (s\<lparr>range_attr := Some 7\<rparr>) = transactions s
   \<and> exec rnd dev Get_range (s\<lparr>range_attr := Some 7\<rparr>)
       = Some (Inr (PyInt 7), s\<lparr>range_attr := Some 7\<rparr>)
   \<and> v_fsr_of_range 7 = 64
   \<and> exec rnd dev (Set_mux 8) s = Some (Inl AttributeError, s)
   \<and> exec rnd dev (Set_data_rate 7) s = Some (Inl AttributeError, s)"
  by (simp add: is_valid_Range is_valid_Mux is_valid_DataRate set_range_def get_range_def
      set_mux_def set_data_rate_def v_fsr_of_range_def drop_bit_eq_div)

text \<open>
  Claim C5. For each channel 0 to 3 the setter of \<^verbatim>\<open>input_channel\<close> reads the CONFIG
  register and writes it back with the multiplexer field (mask \<open>0x7000\<close>) set to
  \<open>4 + channel\<close>. The getter returns the field as it is: on a device that keeps what was
  written, reading \<^verbatim>\<open>input_channel\<close> after setting it to 0, 1, 2, 3 yields 4, 5, 6, 7 and
  not the channel index, so the pair does not round-trip.
\<close>

theorem input_channel_reads_mux_code:
  "map (\<lambda>c. transactions (snd (set_input_channel dev c s))) [0, 1, 2, 3]
     = map (\<lambda>m. transactions s @
              [Rd CONFIG_REG (dev (transactions s) CONFIG_REG),
               Wr CONFIG_REG ((dev (transactions s) CONFIG_REG AND NOT 0x7000) OR m)])
         [0x4000, 0x5000, 0x6000, 0x7000]
   \<and> map (\<lambda>c. fst (get_input_channel (sim_device c0 d)
                  (snd (set_input_channel (sim_device c0 d) c s)))) [0, 1, 2, 3]
     = [4, 5, 6, 7]"
  using set_input_channel_writes [of dev s] by (simp add: sim_input_channel_read_back)

text \<open>
  Claim C6. The constructor returns after exactly three read-modify-write transactions on
  the CONFIG register: it clears the mode bit, sets the multiplexer field to 4 and the
  data-rate field to 6. Each written word carries the gain field (bits 11 to 9) of the word
  read just before, so the range is never pushed to the device; \<^verbatim>\<open>self.range = 2\<close> only
  stores an attribute of the handle. On a device whose gain field holds 0 the field still
  holds 0 after construction, while the handle converts with range code 2, and a read of
  \<^verbatim>\<open>range\<close> returns the stored attribute without a bus transaction.
\<close>

theorem init_leaves_gain_field:
  "init rnd dev =
     (let a = dev [] CONFIG_REG;
          t1 = [Rd CONFIG_REG a, Wr CONFIG_REG (a AND NOT 0x0100)];
          b = dev t1 CONFIG_REG;
          t2 = t1 @ [Rd CONFIG_REG b, Wr CONFIG_REG ((b AND NOT 0x7000) OR 0x4000)];
          c = dev t2 CONFIG_REG;
          t3 = t2 @ [Rd CONFIG_REG c, Wr CONFIG_REG ((c AND NOT 0x00E0) OR 0x00C0)]
      in Some (Inr (), \<lparr>transactions = t3, last_one_shot = None, range_attr = Some 2\<rparr>))
   \<and> (a AND NOT 0x0100) AND bit_mask 3 9 = a AND bit_mask 3 9
   \<and> ((b AND NOT 0x7000) OR 0x4000) AND bit_mask 3 9 = b AND bit_mask 3 9
   \<and> ((c AND NOT 0x00E0) OR 0x00C0) AND bit_mask 3 9 = c AND bit_mask 3 9
   \<and> init rnd (sim_device 0x0000 d) =
       Some (Inr (), \<lparr>transactions =
          [Rd CONFIG_REG 0x0000, Wr CONFIG_REG 0x0000, Rd CONFIG_REG 0x0000,
           Wr CONFIG_REG 0x4000, Rd CONFIG_REG 0x4000, Wr CONFIG_REG 0x40C0],
          last_one_shot = None, range_attr = Some 2\<rparr>)
   \<and> fst (pga_get (sim_device 0x0000 d) \<lparr>transactions =
          [Rd CONFIG_REG 0x0000, Wr CONFIG_REG 0x0000, Rd CONFIG_REG 0x0000,
           Wr CONFIG_REG 0x4000, Rd CONFIG_REG 0x4000, Wr CONFIG_REG 0x40C0],
          last_one_shot = None, range_attr = Some 2\<rparr>) = 0
   \<and> exec rnd dev Get_range \<lparr>transactions = tr, last_one_shot = l, range_attr = Some 2\<rparr>
       = Some (Inr (PyInt 2), \<lparr>transactions = tr, last_one_shot = l, range_attr = Some 2\<rparr>)"
proof -
  have "init rnd (sim_device 0x0000 d) =
       Some (Inr (), \<lparr>transactions =
          [Rd CONFIG_REG 0x0000, Wr CONFIG_REG 0x0000, Rd CONFIG_REG 0x0000,
           Wr CONFIG_REG 0x4000, Rd CONFIG_REG 0x4000, Wr CONFIG_REG 0x40C0],
          last_one_shot = None, range_attr = Some 2\<rparr>)"
    by (simp add: init_eq Let_def)
  moreover have "fst (pga_get (sim_device 0x0000 d) \<lparr>transactions =
          [Rd CONFIG_REG 0x0000, Wr CONFIG_REG 0x0000, Rd CONFIG_REG 0x0000,
           Wr CONFIG_REG 0x4000, Rd CONFIG_REG 0x4000, Wr CONFIG_REG 0x40C0],
          last_one_shot = None, range_attr = Some 2\<rparr>) = 0"
    by (simp add: pga_get_def rwbits_get_eq bit_mask_values)
  moreover have "(a AND NOT 0x0100) AND bit_mask 3 9 = a AND bit_mask 3 9"
    "((b AND NOT 0x7000) OR 0x4000) AND bit_mask 3 9 = b AND bit_mask 3 9"
    "((c AND NOT 0x00E0) OR 0x00C0) AND bit_mask 3 9 = c AND bit_mask 3 9"
    by (simp_all only: bit_mask_values pga_untouched)
  moreover have "exec rnd dev Get_range \<lparr>transactions = tr, last_one_shot = l, range_attr = Some 2\<rparr>
       = Some (Inr (PyInt 2), \<lparr>transactions = tr, last_one_shot = l, range_attr = Some 2\<rparr>)"
    by (simp add: get_range_def)
  ultimately show ?thesis
    using init_eq [of rnd dev] by (intro conjI) assumption+
qed

section \<open>The acquisition protocol\<close>

text \<open>
  Claim C7. On a handle whose \<^verbatim>\<open>range\<close> holds a non-negative number: setting the mode
  to \<^verbatim>\<open>CONTINUOUS\<close> always returns, after one read of CONFIG and one write that clears
  the mode bit (bit 8). Setting it to \<^verbatim>\<open>ONE_SHOT\<close> writes the mode bit, then writes the
  status bit (bit 15), then reads CONFIG until the status bit reads clear: every poll but
  the last saw the bit set, the last saw it clear, and the polled values are the answers of
  the device. It then reads the DATA register once and stores the conversion of the
  device's answer in the cache before it returns. The call fails to return exactly when no
  number of polls ever sees the status bit clear.
\<close>

theorem set_mode_protocol:
  assumes "range_attr s = Some r" and "0 \<le> r"
  shows
    "set_mode rnd dev CONTINUOUS s =
       Some (Inr (), s\<lparr>transactions := transactions s @
          [Rd CONFIG_REG (dev (transactions s) CONFIG_REG),
           Wr CONFIG_REG (dev (transactions s) CONFIG_REG AND NOT 0x0100)]\<rparr>)
     \<and> transactions (triggered dev s) =
         (let a = dev (transactions s) CONFIG_REG;
              t1 = transactions s @ [Rd CONFIG_REG a, Wr CONFIG_REG (a OR 0x0100)];
              b = dev t1 CONFIG_REG
          in t1 @ [Rd CONFIG_REG b, Wr CONFIG_REG (b OR 0x8000)])
     \<and> (set_mode rnd dev ONE_SHOT s = None
          \<longleftrightarrow> (\<forall>n. poll_fuel dev n (triggered dev s) = None))
     \<and> (\<forall>res. set_mode rnd dev ONE_SHOT s = Some res \<longrightarrow>
          (\<exists>polls w. polls \<noteq> [] \<and> \<not> bit (last polls) 15
             \<and> (\<forall>c \<in> set (butlast polls). bit c 15)
             \<and> answered dev CONFIG_REG (transactions (triggered dev s)) polls
             \<and> answered dev DATA_REG
                  (transactions (triggered dev s) @ map (Rd CONFIG_REG) polls) [w]
             \<and> res = (Inr (), s\<lparr>transactions := transactions (triggered dev s)
                          @ map (Rd CONFIG_REG) polls @ [Rd DATA_REG w],
                        last_one_shot :=
                          Some (convert rnd (sint w div 16) (v_fsr_of_range r))\<rparr>)))"
proof -
  have "transactions (triggered dev s) =
         (let a = dev (transactions s) CONFIG_REG;
              t1 = transactions s @ [Rd CONFIG_REG a, Wr CONFIG_REG (a OR 0x0100)];
              b = dev t1 CONFIG_REG
          in t1 @ [Rd CONFIG_REG b, Wr CONFIG_REG (b OR 0x8000)])"
    by (simp add: triggered_eq Let_def)
  then show ?thesis
    using set_mode_continuous [of rnd dev s] set_mode_one_shot_blocks [of rnd dev s]
      set_mode_one_shot_returns [OF assms, of rnd dev]
    by blast
qed

theorem set_mode_protocol_witness:
  "set_mode exact (sim_device 0x0000 0x7FF0) CONTINUOUS
      \<lparr>transactions = [], last_one_shot = None, range_attr = Some 2\<rparr>
     = Some (Inr (), \<lparr>transactions = [Rd CONFIG_REG 0x0000, Wr CONFIG_REG 0x0000],
                      last_one_shot = None, range_attr = Some 2\<rparr>)
   \<and> set_mode exact (sim_device 0x0000 0x7FF0) ONE_SHOT
      \<lparr>transactions = [], last_one_shot = None, range_attr = Some 2\<rparr>
     = Some (Inr (), \<lparr>transactions =
         [Rd CONFIG_REG 0x0000, Wr CONFIG_REG 0x0100, Rd CONFIG_REG 0x0100, Wr CONFIG_REG 0x8100,
          Rd CONFIG_REG 0x8100, Rd CONFIG_REG 0x0100, Rd DATA_REG 0x7FF0],
         last_one_shot = Some (256 / 125), range_attr = Some 2\<rparr>)
   \<and> (\<exists>polls w. polls \<noteq> [] \<and> \<not> bit (last polls) 15
        \<and> (\<forall>c \<in> set (butlast polls). bit c 15)
        \<and> [Rd CONFIG_REG 0x0000, Wr CONFIG_REG 0x0100, Rd CONFIG_REG 0x0100, Wr CONFIG_REG 0x8100,
            Rd CONFIG_REG 0x8100, Rd CONFIG_REG 0x0100, Rd DATA_REG (0x7FF0 :: 16 word)]
          = [Rd CONFIG_REG 0x0000, Wr CONFIG_REG 0x0100, Rd CONFIG_REG 0x0100, Wr CONFIG_REG 0x8100]
            @ map (Rd CONFIG_REG) polls @ [Rd DATA_REG w])"
proof -
  let ?s = "\<lparr>transactions = [], last_one_shot = None, range_attr = Some (2::int)\<rparr>"
  let ?D = "sim_device 0x0000 0x7FF0"
  have h: "range_attr ?s = Some 2" "(0::int) \<le> 2" by simp_all
  note p = set_mode_protocol [OF h, of exact ?D]
  have run: "set_mode exact ?D ONE_SHOT ?s
     = Some (Inr (), \<lparr>transactions =
         [Rd CONFIG_REG 0x0000, Wr CONFIG_REG 0x0100, Rd CONFIG_REG 0x0100, Wr CONFIG_REG 0x8100,
          Rd CONFIG_REG 0x8100, Rd CONFIG_REG 0x0100, Rd DATA_REG 0x7FF0],
         last_one_shot = Some (256 / 125), range_attr = Some 2\<rparr>)"
    by code_simp
  have c: "set_mode exact ?D CONTINUOUS ?s
     = Some (Inr (), \<lparr>transactions = [Rd CONFIG_REG 0x0000, Wr CONFIG_REG 0x0000],
                      last_one_shot = None, range_attr = Some 2\<rparr>)"
    using p by simp
  have t: "transactions (triggered ?D ?s)
      = [Rd CONFIG_REG 0x0000, Wr CONFIG_REG 0x0100, Rd CONFIG_REG 0x0100, Wr CONFIG_REG 0x8100]"
    using p by (simp add: Let_def)
  from p run obtain polls w where "polls \<noteq> []" "\<not> bit (last polls) 15"
    "\<forall>c \<in> set (butlast polls). bit c 15"
    "(Inr (), \<lparr>transactions =
         [Rd CONFIG_REG 0x0000, Wr CONFIG_REG 0x0100, Rd CONFIG_REG 0x0100, Wr CONFIG_REG 0x8100,
          Rd CONFIG_REG 0x8100, Rd CONFIG_REG 0x0100, Rd DATA_REG 0x7FF0],
         last_one_shot = Some (256 / 125), range_attr = Some 2\<rparr>)
     = (Inr (), ?s\<lparr>transactions := transactions (triggered ?D ?s)
                          @ map (Rd CONFIG_REG) polls @ [Rd DATA_REG w],
                        last_one_shot :=
                          Some (convert exact (sint w div 16) (v_fsr_of_range 2))\<rparr>)"
    by blast
  then have "\<exists>polls w. polls \<noteq> [] \<and> \<not> bit (last polls) 15
        \<and> (\<forall>c \<in> set (butlast polls). bit c 15)
        \<and> [Rd CONFIG_REG 0x0000, Wr CONFIG_REG 0x0100, Rd CONFIG_REG 0x0100, Wr CONFIG_REG 0x8100,
            Rd CONFIG_REG 0x8100, Rd CONFIG_REG 0x0100, Rd DATA_REG (0x7FF0 :: 16 word)]
          = [Rd CONFIG_REG 0x0000, Wr CONFIG_REG 0x0100, Rd CONFIG_REG 0x0100, Wr CONFIG_REG 0x8100]
            @ map (Rd CONFIG_REG) polls @ [Rd DATA_REG w]"
    unfolding t by (intro exI [of _ polls] exI [of _ w]) simp
  with run c show ?thesis by (intro conjI)
qed

text \<open>
  Claim C8. When the mode bit of CONFIG reads \<^verbatim>\<open>ONE_SHOT\<close>, \<^verbatim>\<open>voltage\<close> returns the
  cached result after that one read of CONFIG: it writes nothing, does not read DATA and
  leaves the cache as it is. After any further calls that start no acquisition (among them
  further reads of \<^verbatim>\<open>voltage\<close>), a read of \<^verbatim>\<open>voltage\<close> that sees the mode bit set still
  returns the same cached value. When the mode bit reads \<^verbatim>\<open>CONTINUOUS\<close> (and \<^verbatim>\<open>range\<close>
  holds a non-negative number), \<^verbatim>\<open>voltage\<close> reads the DATA register and returns the
  conversion of what the device answers at that moment, and the cache is not touched.
\<close>

theorem voltage_cached_or_live:
  "(bit (dev (transactions s) CONFIG_REG) 8 \<longrightarrow>
      voltage rnd dev s =
        (Inr (last_one_shot s),
         s\<lparr>transactions := transactions s @ [Rd CONFIG_REG (dev (transactions s) CONFIG_REG)]\<rparr>)
      \<and> (\<forall>cs. (\<forall>c \<in> set cs. \<not> acquires c) \<longrightarrow>
            (\<exists>r s'. script rnd dev cs s = Some (r, s')
               \<and> (bit (dev (transactions s') CONFIG_REG) 8 \<longrightarrow>
                    fst (voltage rnd dev s') = Inr (last_one_shot s)))))
   \<and> (\<not> bit (dev (transactions s) CONFIG_REG) 8 \<and> range_attr s = Some r \<and> 0 \<le> r \<longrightarrow>
        voltage rnd dev s =
          (let c = dev (transactions s) CONFIG_REG;
               w = dev (transactions s @ [Rd CONFIG_REG c]) DATA_REG
           in (Inr (Some (convert rnd (sint w div 16) (v_fsr_of_range r))),
               s\<lparr>transactions := transactions s @ [Rd CONFIG_REG c, Rd DATA_REG w]\<rparr>)))"
proof (intro conjI impI allI)
  assume "bit (dev (transactions s) CONFIG_REG) 8"
  then show "voltage rnd dev s =
        (Inr (last_one_shot s),
         s\<lparr>transactions := transactions s @ [Rd CONFIG_REG (dev (transactions s) CONFIG_REG)]\<rparr>)"
    by (rule voltage_one_shot)
next
  fix cs
  assume "\<forall>c \<in> set cs. \<not> acquires c"
  from script_cache [OF this, of rnd dev s] obtain r s'
    where s': "script rnd dev cs s = Some (r, s')" "last_one_shot s' = last_one_shot s"
    by blast
  have "fst (voltage rnd dev s') = Inr (last_one_shot s)"
    if "bit (dev (transactions s') CONFIG_REG) 8"
    using voltage_one_shot [of dev s' rnd] that s'(2) by simp
  with s'(1) show "\<exists>r s'. script rnd dev cs s = Some (r, s')
               \<and> (bit (dev (transactions s') CONFIG_REG) 8 \<longrightarrow>
                    fst (voltage rnd dev s') = Inr (last_one_shot s))"
    by blast
next
  assume "\<not> bit (dev (transactions s) CONFIG_REG) 8 \<and> range_attr s = Some r \<and> 0 \<le> r"
  then show "voltage rnd dev s =
          (let c = dev (transactions s) CONFIG_REG;
               w = dev (transactions s @ [Rd CONFIG_REG c]) DATA_REG
           in (Inr (Some (convert rnd (sint w div 16) (v_fsr_of_range r))),
               s\<lparr>transactions := transactions s @ [Rd CONFIG_REG c, Rd DATA_REG w]\<rparr>))"
    using voltage_continuous_value [of dev s r rnd] by blast
qed

theorem voltage_cached_or_live_witness:
  "voltage exact (sim_device 0x0100 0x0010)
      \<lparr>transactions = [], last_one_shot = Some (256 / 125), range_attr = Some 2\<rparr>
     = (Inr (Some (256 / 125)),
        \<lparr>transactions = [Rd CONFIG_REG 0x0100], last_one_shot = Some (256 / 125),
         range_attr = Some 2\<rparr>)
   \<and> (\<exists>r s'. script exact (sim_device 0x0100 0x0010) [Get_voltage, Get_mux]
         \<lparr>transactions = [], last_one_shot = Some (256 / 125), range_attr = Some 2\<rparr> = Some (r, s')
       \<and> fst (voltage exact (sim_device 0x0100 0x0010) s') = Inr (Some (256 / 125)))
   \<and> voltage exact (sim_device 0x0000 0x7FF0)
      \<lparr>transactions = [], last_one_shot = None, range_attr = Some 2\<rparr>
     = (Inr (Some (256 / 125)),
        \<lparr>transactions = [Rd CONFIG_REG 0x0000, Rd DATA_REG 0x7FF0], last_one_shot = None,
         range_attr = Some 2\<rparr>)"
proof -
  let ?D = "sim_device 0x0100 0x0010"
  let ?s = "\<lparr>transactions = [], last_one_shot = Some (256 / 125), range_attr = Some (2::int)\<rparr>"
  let ?E = "sim_device 0x0000 0x7FF0"
  let ?t = "\<lparr>transactions = [], last_one_shot = None, range_attr = Some (2::int)\<rparr>"
  note one = voltage_cached_or_live [where dev = ?D and s = ?s and rnd = exact and r = 2]
  note live = voltage_cached_or_live [where dev = ?E and s = ?t and rnd = exact and r = 2]
  have m: "bit (?D (transactions ?s) CONFIG_REG) 8" by simp
  have a: "voltage exact ?D ?s
     = (Inr (Some (256 / 125)),
        \<lparr>transactions = [Rd CONFIG_REG 0x0100], last_one_shot = Some (256 / 125),
         range_attr = Some 2\<rparr>)"
    using one m by simp
  have na: "\<forall>c \<in> set [Get_voltage, Get_mux]. \<not> acquires c" by simp
  from one m na obtain r s' where
    s': "script exact ?D [Get_voltage, Get_mux] ?s = Some (r, s')"
      "bit (?D (transactions s') CONFIG_REG) 8 \<longrightarrow> fst (voltage exact ?D s') = Inr (last_one_shot ?s)"
    by blast
  have "script exact ?D [Get_voltage, Get_mux] ?s
      = Some (Inr (PyInt 0), \<lparr>transactions = [Rd CONFIG_REG 0x0100, Rd CONFIG_REG 0x0100],
          last_one_shot = Some (256 / 125), range_attr = Some 2\<rparr>)"
    by code_simp
  with s'(1) have "s' = \<lparr>transactions = [Rd CONFIG_REG 0x0100, Rd CONFIG_REG 0x0100],
          last_one_shot = Some (256 / 125), range_attr = Some 2\<rparr>"
    by simp
  then have "bit (?D (transactions s') CONFIG_REG) 8" by simp
  with s' have b: "\<exists>r s'. script exact ?D [Get_voltage, Get_mux] ?s = Some (r, s')
       \<and> fst (voltage exact ?D s') = Inr (Some (256 / 125))"
    by auto
  have "\<not> bit (?E (transactions ?t) CONFIG_REG) 8 \<and> range_attr ?t = Some 2 \<and> (0::int) \<le> 2"
    by simp
  with live have c: "voltage exact ?E ?t
     = (Inr (Some (256 / 125)),
        \<lparr>transactions = [Rd CONFIG_REG 0x0000, Rd DATA_REG 0x7FF0], last_one_shot = None,
         range_attr = Some 2\<rparr>)"
    by (simp add: Let_def convert_def fdiv_def fmul_def float_of_int_def exact_def
        v_fsr_of_range_def drop_bit_eq_div)
  from a b c show ?thesis by (intro conjI)
qed

text \<open>
  Claim C9. \<^verbatim>\<open>read(channel)\<close> and the script that sets \<^verbatim>\<open>input_channel\<close>, sets
  \<^verbatim>\<open>mode\<close> to \<^verbatim>\<open>ONE_SHOT\<close> and then reads \<^verbatim>\<open>voltage\<close> agree on every handle, every
  device and every channel: they return the same value or raise the same exception, leave
  the same handle with the same transactions, and one returns exactly when the other does.
\<close>

theorem read_is_composite:
  "exec rnd dev (Read c) s = script rnd dev [Set_input_channel c, Set_mode ONE_SHOT, Get_voltage] s"
proof (cases "c \<in> set [0..3]")
  case False
  then have "set_input_channel dev c s = (Inl AttributeError, s)"
    by (simp add: set_input_channel_def)
  then show ?thesis by (simp add: read_def)
next
  case True
  then obtain s1 where s1: "set_input_channel dev c s = (Inr (), s1)"
    by (simp add: set_input_channel_def)
  show ?thesis
  proof (cases "set_mode rnd dev ONE_SHOT s1")
    case None
    with s1 show ?thesis by (simp add: read_def)
  next
    case (Some res)
    obtain r s2 where "res = (r, s2)" by (cases res)
    with Some s1 show ?thesis by (cases r) (simp_all add: read_def)
  qed
qed

text \<open>
  Claim C10. The constructor always returns, with an empty cache. Any script of calls that
  start no one-shot acquisition returns and leaves the cache empty; if the device then
  reports the mode bit as \<^verbatim>\<open>ONE_SHOT\<close>, a read of \<^verbatim>\<open>voltage\<close> returns \<^verbatim>\<open>None\<close>.
\<close>

theorem cache_absent_until_acquired:
  assumes "\<forall>c \<in> set cs. \<not> acquires c"
  shows "\<exists>s0 r s. init rnd dev = Some (Inr (), s0) \<and> last_one_shot s0 = None
           \<and> script rnd dev cs s0 = Some (r, s) \<and> last_one_shot s = None
           \<and> (bit (dev (transactions s) CONFIG_REG) 8 \<longrightarrow>
                voltage rnd dev s =
                  (Inr None,
                   s\<lparr>transactions := transactions s @
                       [Rd CONFIG_REG (dev (transactions s) CONFIG_REG)]\<rparr>))"
proof -
  obtain s0 where i: "init rnd dev = Some (Inr (), s0)" "last_one_shot s0 = None"
    by (simp add: init_eq Let_def)
  from script_cache [OF assms, of rnd dev s0] i(2) obtain r s
    where s: "script rnd dev cs s0 = Some (r, s)" "last_one_shot s = None"
    by auto
  have "voltage rnd dev s =
          (Inr None, s\<lparr>transactions := transactions s @
                       [Rd CONFIG_REG (dev (transactions s) CONFIG_REG)]\<rparr>)"
    if "bit (dev (transactions s) CONFIG_REG) 8"
    using voltage_one_shot [of dev s rnd] that s(2) by simp
  with i s show ?thesis by blast
qed

theorem cache_absent_until_acquired_witness:
  "\<not> acquires (Set_input_channel 1) \<and> \<not> acquires Get_voltage
   \<and> (\<exists>s0 r s. init exact (\<lambda>tr r. 0x8583) = Some (Inr (), s0) \<and> last_one_shot s0 = None
         \<and> script exact (\<lambda>tr r. 0x8583) [Set_input_channel 1, Get_voltage] s0 = Some (r, s)
         \<and> r = Inr PyNone
         \<and> voltage exact (\<lambda>tr r. 0x8583) s =
              (Inr None, s\<lparr>transactions := transactions s @ [Rd CONFIG_REG 0x8583]\<rparr>))"
proof -
  let ?D = "(\<lambda>tr r. 0x8583) :: device"
  have na: "\<forall>c \<in> set [Set_input_channel 1, Get_voltage]. \<not> acquires c" by simp
  from cache_absent_until_acquired [OF na, of exact ?D] obtain s0 r s where
    *: "init exact ?D = Some (Inr (), s0)" "last_one_shot s0 = None"
      "script exact ?D [Set_input_channel 1, Get_voltage] s0 = Some (r, s)"
      "last_one_shot s = None"
      "bit (?D (transactions s) CONFIG_REG) 8 \<longrightarrow>
          voltage exact ?D s =
            (Inr None, s\<lparr>transactions := transactions s @
                       [Rd CONFIG_REG (?D (transactions s) CONFIG_REG)]\<rparr>)"
    by blast
  have "bit (0x8583 :: 16 word) 8" by simp
  with *(5) have v: "voltage exact ?D s =
              (Inr None, s\<lparr>transactions := transactions s @ [Rd CONFIG_REG 0x8583]\<rparr>)"
    by simp
  have "script exact ?D [Set_input_channel 1, Get_voltage] s0
          = (case voltage exact ?D (snd (set_input_channel ?D 1 s0)) of
               (r, s') \<Rightarrow> Some (map_sum id of_voltage r, s'))"
    by (simp add: set_input_channel_def split: prod.splits)
  moreover have "last_one_shot (snd (set_input_channel ?D 1 s0)) = None"
    using *(2) by (simp add: set_input_channel_def mux_set_def rwbits_set_eq)
  moreover have "bit (?D (transactions (snd (set_input_channel ?D 1 s0))) CONFIG_REG) 8" by simp
  ultimately have "fst (the (script exact ?D [Set_input_channel 1, Get_voltage] s0)) = Inr PyNone"
    by (simp add: voltage_one_shot)
  with *(3) have "r = Inr PyNone" by simp
  with * v show ?thesis by (intro conjI exI [of _ s0] exI [of _ r] exI [of _ s]) simp_all
qed

section \<open>Voltage conversion\<close>

text \<open>
  Claim C1, as amended. On a handle whose \<^verbatim>\<open>range\<close> holds a non-negative number \<open>r\<close>,
  \<^verbatim>\<open>_read_volts\<close> takes the full-scale value \<open>8192 >> r\<close>, shifting by the range code itself
  and not by the value associated with it in the enumeration, except that it takes 6144 for
  the code 0; the codes 0 to 5 give 6144, 4096, 2048, 1024, 512 and 256 millivolts. The
  result is the decoded sample divided by \<^verbatim>\<open>2047.0\<close>, multiplied by the full-scale value and
  divided by \<^verbatim>\<open>1000.0\<close>, each operation rounded to a float, after one read of the DATA
  register.
\<close>

theorem read_volts_full_scale:
  assumes "range_attr s = Some r" and "0 \<le> r"
  shows
    "v_fsr_of_range r = (if r = 0 then 6144 else 8192 div 2 ^ nat r)
     \<and> map v_fsr_of_range [0, 1, 2, 3, 4, 5] = [6144, 4096, 2048, 1024, 512, 256]
     \<and> read_volts rnd dev s =
         (let value_lsb = sint (dev (transactions s) DATA_REG) div 16;
              v_fsr = v_fsr_of_range r
          in (Inr (fdiv rnd (fmul rnd (fdiv rnd (of_int value_lsb) 2047) (of_int v_fsr)) 1000),
              s\<lparr>transactions := transactions s @
                  [Rd DATA_REG (dev (transactions s) DATA_REG)]\<rparr>))"
proof -
  have "v_fsr_of_range r = (if r = 0 then 6144 else 8192 div 2 ^ nat r)"
    by (simp add: v_fsr_of_range_def drop_bit_eq_div)
  moreover have "map v_fsr_of_range [0, 1, 2, 3, 4, 5] = [6144, 4096, 2048, 1024, 512, 256]"
    by (simp add: v_fsr_of_range_def drop_bit_eq_div)
  moreover have "read_volts rnd dev s =
         (let value_lsb = sint (dev (transactions s) DATA_REG) div 16;
              v_fsr = v_fsr_of_range r
          in (Inr (fdiv rnd (fmul rnd (fdiv rnd (of_int value_lsb) 2047) (of_int v_fsr)) 1000),
              s\<lparr>transactions := transactions s @
                  [Rd DATA_REG (dev (transactions s) DATA_REG)]\<rparr>))"
    using assms by (simp add: read_volts_eq convert_def float_of_int_def Let_def)
  ultimately show ?thesis by (intro conjI)
qed

theorem read_volts_full_scale_witness:
  "v_fsr_of_range 1 = 4096
   \<and> read_volts exact (\<lambda>tr r. 0x7FF0)
        \<lparr>transactions = [], last_one_shot = None, range_attr = Some 1\<rparr>
     = (Inr (4096 / 1000),
        \<lparr>transactions = [Rd DATA_REG 0x7FF0], last_one_shot = None, range_attr = Some 1\<rparr>)"
proof -
  let ?s = "\<lparr>transactions = [], last_one_shot = None, range_attr = Some (1::int)\<rparr>"
  have h: "range_attr ?s = Some 1" "(0::int) \<le> 1" by simp_all
  from read_volts_full_scale [OF h, of exact "\<lambda>tr r. 0x7FF0"] show ?thesis
    by (simp add: Let_def fdiv_def fmul_def exact_def)
qed

text \<open>
  The claim as it was stated fails at the default range: for the code 2 the enumeration's
  associated value is 1, so the stated formula gives \<open>8192 >> 1 = 4096\<close>, while the code
  computes \<open>8192 >> 2 = 2048\<close>, and a full-scale sample converts to 2.048 V.
\<close>

theorem full_scale_not_enum_shift:
  "cv_lsb Range_values RANGE_2_048V = Some 1
   \<and> spec_range_shift_exponent RANGE_2_048V = Some 1
   \<and> spec_v_fsr RANGE_2_048V = Some 4096
   \<and> v_fsr_of_range RANGE_2_048V = 2048
   \<and> Some (v_fsr_of_range RANGE_2_048V) \<noteq> spec_v_fsr RANGE_2_048V
   \<and> fst (read_volts exact (\<lambda>tr r. 0x7FF0)
          \<lparr>transactions = [], last_one_shot = None, range_attr = Some RANGE_2_048V\<rparr>)
       = Inr (2048 / 1000)"
  by (simp add: cv_lsb_def Range_values_def RANGE_2_048V_def spec_range_shift_exponent_def
      spec_v_fsr_def v_fsr_of_range_def drop_bit_eq_div read_volts_eq convert_def fdiv_def
      fmul_def float_of_int_def exact_def)

text \<open>
  Rounding errors accumulate over the three float operations of \<^verbatim>\<open>_read_volts\<close>. For the
  sample -2048 and the range code 2 every intermediate value has a magnitude between
  0.001 and 10000, so a rounding function of relative error at most \<open>10\<^sup>-\<^sup>6\<close> on these
  magnitudes, which covers binary64 and the single-precision formats, leaves the result
  more than 0.9 mV away from -2.048 V.
\<close>

lemma rnd_step:
  assumes rw: "rounding_within u lo hi rnd" and u: "0 \<le> u" and k: "0 \<le> k"
    and y: "\<bar>y - t\<bar> \<le> k * \<bar>t\<bar>" and r: "lo \<le> \<bar>y\<bar>" "\<bar>y\<bar> \<le> hi"
  shows "\<bar>rnd y - t\<bar> \<le> ((1 + k) * (1 + u) - 1) * \<bar>t\<bar>"
proof -
  have 1: "\<bar>rnd y - y\<bar> \<le> u * \<bar>y\<bar>"
    using rw r by (simp add: rounding_within_def)
  have "\<bar>y\<bar> \<le> \<bar>y - t\<bar> + \<bar>t\<bar>" by simp
  with y have 2: "\<bar>y\<bar> \<le> (1 + k) * \<bar>t\<bar>" by (simp add: algebra_simps)
  have "\<bar>rnd y - t\<bar> \<le> \<bar>rnd y - y\<bar> + \<bar>y - t\<bar>" by simp
  also have "\<dots> \<le> u * \<bar>y\<bar> + k * \<bar>t\<bar>" using 1 y by simp
  also have "\<dots> \<le> u * ((1 + k) * \<bar>t\<bar>) + k * \<bar>t\<bar>"
    using mult_left_mono [OF 2 u] by simp
  also have "\<dots> = ((1 + k) * (1 + u) - 1) * \<bar>t\<bar>" by (simp add: algebra_simps)
  finally show ?thesis .
qed

lemma exact_rounding: "rounding_within 0 lo hi exact"
  by (simp add: rounding_within_def exact_def)

lemma negative_full_scale_any_rounding:
  assumes rw: "rounding_within u (1 / 1000) 10000 rnd" and u: "0 \<le> u" "u \<le> 1 / 1000000"
  shows "\<bar>convert rnd (- 2048) (v_fsr_of_range RANGE_2_048V) - (- (2048 / 1000))\<bar> > 9 / 10000"
proof -
  define t0 :: rat where "t0 = - 2048 / 2047"
  define x1 where "x1 = rnd t0"
  define x2 where "x2 = rnd (x1 * 2048)"
  define x3 where "x3 = rnd (x2 / 1000)"
  have v: "v_fsr_of_range RANGE_2_048V = 2048"
    by (simp add: v_fsr_of_range_def RANGE_2_048V_def drop_bit_eq_div)
  have c: "convert rnd (- 2048) (v_fsr_of_range RANGE_2_048V) = x3"
    by (simp add: v convert_def fdiv_def fmul_def float_of_int_def x3_def x2_def x1_def t0_def)
  have a0: "\<bar>t0\<bar> = 2048 / 2047" by (simp add: t0_def)
  have "\<bar>x1 - t0\<bar> \<le> ((1 + 0) * (1 + u) - 1) * \<bar>t0\<bar>"
    unfolding x1_def by (rule rnd_step [OF rw u(1)]) (simp_all add: a0)
  then have e1: "\<bar>x1 - t0\<bar> \<le> u * (2048 / 2047)" by (simp add: a0)
  have uu: "u * (2048 / 2047) \<le> 1 / 1000000 * (2048 / 2047)"
    using u by (intro mult_right_mono) simp_all
  define t1 :: rat where "t1 = t0 * 2048"
  have a1: "\<bar>t1\<bar> = 2048 * 2048 / 2047" by (simp add: t1_def t0_def)
  have "x1 * 2048 - t1 = (x1 - t0) * 2048" by (simp add: t1_def algebra_simps)
  then have "\<bar>x1 * 2048 - t1\<bar> = \<bar>x1 - t0\<bar> * 2048" by (simp only: abs_mult abs_numeral)
  with e1 have d1: "\<bar>x1 * 2048 - t1\<bar> \<le> u * \<bar>t1\<bar>" by (simp add: a1)
  have "u * \<bar>t1\<bar> \<le> 1 / 1000000 * \<bar>t1\<bar>"
    using u by (intro mult_right_mono) simp_all
  with d1 have d1n: "\<bar>x1 * 2048 - t1\<bar> \<le> 1 / 1000000 * (2048 * 2048 / 2047)"
    by (simp add: a1)
  have r1: "1 / 1000 \<le> \<bar>x1 * 2048\<bar>" "\<bar>x1 * 2048\<bar> \<le> 10000"
    using d1n a1 by linarith+
  have e2: "\<bar>x2 - t1\<bar> \<le> ((1 + u) * (1 + u) - 1) * \<bar>t1\<bar>"
    unfolding x2_def by (rule rnd_step [OF rw u(1) u(1) d1 r1])
  define k where "k = (1 + u) * (1 + u) - 1"
  have k: "0 \<le> k" "k \<le> 3 / 1000000"
  proof -
    have "u * u \<le> u * 1" using u by (intro mult_left_mono) simp_all
    then show "k \<le> 3 / 1000000" using u by (simp add: k_def algebra_simps)
    show "0 \<le> k" using u by (simp add: k_def algebra_simps)
  qed
  define t2 :: rat where "t2 = t1 / 1000"
  have a2: "\<bar>t2\<bar> = 2048 * 2048 / (2047 * 1000)" by (simp add: t2_def t1_def t0_def)
  have "x2 / 1000 - t2 = (x2 - t1) / 1000" by (simp add: t2_def diff_divide_distrib)
  then have "\<bar>x2 / 1000 - t2\<bar> = \<bar>x2 - t1\<bar> / 1000" by (simp only: abs_divide abs_numeral)
  with e2 have d2: "\<bar>x2 / 1000 - t2\<bar> \<le> k * \<bar>t2\<bar>"
    by (simp add: k_def t2_def divide_right_mono)
  have "k * \<bar>t2\<bar> \<le> 3 / 1000000 * \<bar>t2\<bar>" using k by (intro mult_right_mono) simp_all
  with d2 have d2n: "\<bar>x2 / 1000 - t2\<bar> \<le> 3 / 1000000 * (2048 * 2048 / (2047 * 1000))"
    by (simp add: a2)
  have r2: "1 / 1000 \<le> \<bar>x2 / 1000\<bar>" "\<bar>x2 / 1000\<bar> \<le> 10000"
    using d2n a2 by linarith+
  have e3: "\<bar>x3 - t2\<bar> \<le> ((1 + k) * (1 + u) - 1) * \<bar>t2\<bar>"
    unfolding x3_def by (rule rnd_step [OF rw u(1) k(1) d2 r2])
  have "(1 + k) * (1 + u) - 1 = k + u + k * u" by (simp add: algebra_simps)
  moreover have "k * u \<le> k * 1" using k u by (intro mult_left_mono) simp_all
  ultimately have "(1 + k) * (1 + u) - 1 \<le> 7 / 1000000" using k u by simp
  then have "((1 + k) * (1 + u) - 1) * \<bar>t2\<bar> \<le> 7 / 1000000 * \<bar>t2\<bar>"
    by (intro mult_right_mono) simp_all
  with e3 have "\<bar>x3 - t2\<bar> \<le> 7 / 1000000 * (2048 * 2048 / (2047 * 1000))" by (simp add: a2)
  moreover have "t2 = - (2048 * 2048 / (2047 * 1000))" by (simp add: t2_def t1_def t0_def)
  ultimately have "\<bar>x3 + 2048 * 2048 / (2047 * 1000)\<bar>
      \<le> 7 / 1000000 * (2048 * 2048 / (2047 * 1000))"
    by simp
  then have "\<bar>x3 - (- (2048 / 1000))\<bar> > 9 / 10000" by linarith
  then show ?thesis by (simp only: c)
qed

text \<open>
  Claim C2. The returned value is a function of the answer of the DATA register and of the
  range alone, and three rows of the table hold: with exact arithmetic and the range code 2
  the sample 0 gives 0 V and the sample 2047 gives 2.048 V, and with the range code 0 the
  sample 2047 gives 6.144 V. The row for the sample -2048 is where the code does not follow
  the claim: the DATA word \<open>0x8000\<close> decodes to -2048, the code divides by \<^verbatim>\<open>2047.0\<close>
  and does not clamp, so the result is \<open>- 2048 / 2047 \<times> 2.048\<close> V, about -2.0490 V. That
  lies below the negative full scale of the selected range, more than a millivolt (a whole
  count of the converter) away from -2.048 V, where the datasheet table quoted in the
  docstring of \<^verbatim>\<open>_read_volts\<close> puts \<open>0x8000\<close> at the negative full scale.
\<close>

theorem negative_full_scale_beyond_range:
  "fst (read_volts rnd (\<lambda>tr r. 0x8000) (s\<lparr>range_attr := Some RANGE_2_048V\<rparr>))
     = Inr (rnd (rnd (rnd (- 2048 / 2047) * 2048) / 1000))
   \<and> fst (read_volts exact (\<lambda>tr r. 0x8000) (s\<lparr>range_attr := Some RANGE_2_048V\<rparr>))
     = Inr (- (2048 * 2048) / (2047 * 1000))
   \<and> - (2048 * 2048) / (2047 * 1000) < (- (2048 / 1000) :: rat)
   \<and> \<bar>- (2048 * 2048) / (2047 * 1000) - (- (2048 / 1000) :: rat)\<bar> > 1 / 1000
   \<and> fst (read_volts exact (\<lambda>tr r. 0x0000) (s\<lparr>range_attr := Some RANGE_2_048V\<rparr>)) = Inr 0
   \<and> fst (read_volts exact (\<lambda>tr r. 0x7FF0) (s\<lparr>range_attr := Some RANGE_2_048V\<rparr>))
     = Inr (2048 / 1000)
   \<and> fst (read_volts exact (\<lambda>tr r. 0x7FF0) (s\<lparr>range_attr := Some RANGE_6_144V\<rparr>))
     = Inr (6144 / 1000)"
proof -
  have v: "v_fsr_of_range RANGE_2_048V = 2048" "v_fsr_of_range RANGE_6_144V = 6144"
    by (simp_all add: v_fsr_of_range_def RANGE_2_048V_def RANGE_6_144V_def drop_bit_eq_div)
  have r: "fst (read_volts f (\<lambda>tr r. w) (s\<lparr>range_attr := Some c\<rparr>))
      = Inr (convert f (sint w div 16) (v_fsr_of_range c))" if "0 \<le> c" for f w c
    using that by (simp add: read_volts_def read_lsb_eq)
  have c: "0 \<le> RANGE_2_048V" "0 \<le> RANGE_6_144V"
    by (simp_all add: RANGE_2_048V_def RANGE_6_144V_def)
  have "fst (read_volts rnd (\<lambda>tr r. 0x8000) (s\<lparr>range_attr := Some RANGE_2_048V\<rparr>))
     = Inr (rnd (rnd (rnd (- 2048 / 2047) * 2048) / 1000))"
    by (simp add: r c v convert_def fdiv_def fmul_def float_of_int_def)
  moreover have "fst (read_volts exact (\<lambda>tr r. 0x8000) (s\<lparr>range_attr := Some RANGE_2_048V\<rparr>))
     = Inr (- (2048 * 2048) / (2047 * 1000))"
    by (simp add: r c v convert_def fdiv_def fmul_def float_of_int_def exact_def)
  moreover have "- (2048 * 2048) / (2047 * 1000) < (- (2048 / 1000) :: rat)"
    "\<bar>- (2048 * 2048) / (2047 * 1000) - (- (2048 / 1000) :: rat)\<bar> > 1 / 1000"
    by simp_all
  moreover have
    "fst (read_volts exact (\<lambda>tr r. 0x0000) (s\<lparr>range_attr := Some RANGE_2_048V\<rparr>)) = Inr 0"
    "fst (read_volts exact (\<lambda>tr r. 0x7FF0) (s\<lparr>range_attr := Some RANGE_2_048V\<rparr>))
       = Inr (2048 / 1000)"
    "fst (read_volts exact (\<lambda>tr r. 0x7FF0) (s\<lparr>range_attr := Some RANGE_6_144V\<rparr>))
       = Inr (6144 / 1000)"
    by (simp_all add: r c v convert_def fdiv_def fmul_def float_of_int_def exact_def)
  ultimately show ?thesis by (intro conjI)
qed

end
